theory Spec2Isabelle
  imports Complex_Main "HOL-Library.Multiset"
begin

section \<open>The arcade shooter of \<^verbatim>\<open>pro1/game2.py\<close>\<close>

text \<open>
  The program is a Tkinter game: a player, enemies that walk towards the player, bullets
  fired towards the mouse pointer, and three periodic callbacks (update, shoot, spawn).
  The embedding is a state-passing one. Python objects are mutable and shared (a bullet is
  held by the game's list and by its own timer callback), so enemies and bullets live in
  two stores indexed by a reference, and the game's collections are lists of references.
  The reference of an enemy or a bullet is the canvas item id that its constructor
  obtains from the canvas: the canvas hands out every id once, as Python does with object
  identities. Python's numbers (ints and floats) are modelled by the reals, so arithmetic
  is exact; rounding of floating point numbers is outside the model.
\<close>

subsection \<open>Library functions\<close>

text \<open>\<^verbatim>\<open>math.hypot\<close>: the Euclidean norm of a vector.\<close>

definition hypot :: "real \<Rightarrow> real \<Rightarrow> real" where
  "hypot a b = sqrt (a\<^sup>2 + b\<^sup>2)"

text \<open>
  \<^verbatim>\<open>math.atan2(y, x)\<close>: the angle of the vector \<open>(x, y)\<close> in \<open>(-pi, pi]\<close>, and
  \<open>0\<close> for the zero vector (as C's \<^verbatim>\<open>atan2(+0, +0)\<close>).
\<close>

definition atan2 :: "real \<Rightarrow> real \<Rightarrow> real" where
  "atan2 y x =
     (if 0 < x then arctan (y / x)
      else if x < 0 then (if 0 \<le> y then arctan (y / x) + pi else arctan (y / x) - pi)
      else if 0 < y then pi / 2
      else if y < 0 then - (pi / 2)
      else 0)"

subsection \<open>Data model\<close>

datatype error = ValueError

text \<open>Text items show a formatted string; the model keeps which string and its number.\<close>

datatype label = ScoreLabel int | LivesLabel int | GameOverLabel int | CloseLabel

datatype item =
    Image real real
  | Oval real real real real
  | Rectangle real real real real
  | TextItem real real label

record Canvas =
  items :: "nat \<Rightarrow> item option"
  next_id :: nat
  winfo_width :: int
  winfo_height :: int

record Player =
  p_x :: real
  p_y :: real
  p_speed :: real
  health :: int
  p_id :: nat

record Enemy =
  e_x :: real
  e_y :: real
  e_speed :: real

record Bullet =
  b_x :: real
  b_y :: real
  b_speed :: real
  angle :: real
  b_dx :: real
  b_dy :: real
  alive :: bool

text \<open>The callbacks that the program registers with \<^verbatim>\<open>after\<close>, and the input events it binds.\<close>

datatype callback = UpdateCb | ShootCb | SpawnCb | BulletMoveCb nat | ShowCloseCb

datatype binding = KeyPress | KeyRelease | Motion

record Game =
  canvas :: Canvas
  player :: Player
  enemy_objs :: "nat \<Rightarrow> Enemy"
  bullet_objs :: "nat \<Rightarrow> Bullet"
  enemies :: "nat list"
  bullets :: "nat list"
  pressed_keys :: "string set"
  mouse_x :: "real option"
  mouse_y :: "real option"
  is_game_over :: bool
  score :: int
  score_text :: nat
  lives_text :: nat
  bindings :: "binding set"
  timers :: "(nat \<times> callback) list"
  rand_src :: "nat \<Rightarrow> nat"
  rand_ix :: nat

subsection \<open>The collaborators: canvas, timer service, random numbers\<close>

definition create_item :: "item \<Rightarrow> Canvas \<Rightarrow> nat \<times> Canvas" where
  "create_item it c =
     (next_id c, c\<lparr>items := (items c)(next_id c \<mapsto> it), next_id := Suc (next_id c)\<rparr>)"

definition canvas_coords :: "nat \<Rightarrow> item \<Rightarrow> Canvas \<Rightarrow> Canvas" where
  "canvas_coords i it c = (if items c i = None then c else c\<lparr>items := (items c)(i \<mapsto> it)\<rparr>)"

definition canvas_delete :: "nat \<Rightarrow> Canvas \<Rightarrow> Canvas" where
  "canvas_delete i c = c\<lparr>items := (items c)(i := None)\<rparr>"

text \<open>
  \<^verbatim>\<open>canvas.itemconfig(id, text=...)\<close>. The program configures its two text items only;
  for any other id the model leaves the canvas as it is.
\<close>

definition itemconfig :: "nat \<Rightarrow> label \<Rightarrow> Canvas \<Rightarrow> Canvas" where
  "itemconfig i l c =
     (case items c i of
        Some (TextItem x y old) \<Rightarrow> c\<lparr>items := (items c)(i \<mapsto> TextItem x y l)\<rparr>
      | _ \<Rightarrow> c)"

text \<open>\<^verbatim>\<open>root.after(ms, callback)\<close> and \<^verbatim>\<open>canvas.after(ms, callback)\<close>.\<close>

definition after :: "nat \<Rightarrow> callback \<Rightarrow> Game \<Rightarrow> Game" where
  "after ms cb g = g\<lparr>timers := timers g @ [(ms, cb)]\<rparr>"

text \<open>
  \<^verbatim>\<open>random.randint(lo, hi)\<close> draws from the state's source of random numbers; the
  result lies in \<open>lo .. hi\<close> (the program calls it with \<open>lo \<le> hi\<close> only).
\<close>

definition randint :: "int \<Rightarrow> int \<Rightarrow> Game \<Rightarrow> int \<times> Game" where
  "randint lo hi g =
     (lo + int (rand_src g (rand_ix g) mod nat (hi - lo + 1)), g\<lparr>rand_ix := Suc (rand_ix g)\<rparr>)"

subsection \<open>Game: display, removal, game over\<close>

definition update_score :: "Game \<Rightarrow> Game" where
  "update_score g = g\<lparr>canvas := itemconfig (score_text g) (ScoreLabel (score g)) (canvas g)\<rparr>"

definition update_lives :: "Game \<Rightarrow> Game" where
  "update_lives g =
     g\<lparr>canvas := itemconfig (lives_text g) (LivesLabel (health (player g))) (canvas g)\<rparr>"

text \<open>\<^verbatim>\<open>list.remove\<close> raises \<^verbatim>\<open>ValueError\<close> when the element is not in the list.\<close>

text \<open>
  \<^verbatim>\<open>Game.remove_enemy\<close> and \<^verbatim>\<open>Game.remove_bullet\<close>:
  \<^verbatim>\<open>
  def remove_enemy(self, enemy):
      """Remove an enemy from the canvas and the list."""
      self.canvas.delete(enemy.id)
      self.enemies.remove(enemy)
      self.update_score()  # Update score after removing an enemy
  
  def remove_bullet(self, bullet):
      """Remove a bullet from the canvas and the list."""
      if bullet in self.bullets:
          bullet.alive = False
          self.canvas.delete(bullet.id)
          self.bullets.remove(bullet)
  \<close>
\<close>

definition remove_enemy :: "nat \<Rightarrow> Game \<Rightarrow> error + Game" where
  "remove_enemy e g =
     (let g1 = g\<lparr>canvas := canvas_delete e (canvas g)\<rparr>
      in if e \<in> set (enemies g1)
         then Inr (update_score (g1\<lparr>enemies := remove1 e (enemies g1)\<rparr>))
         else Inl ValueError)"

definition remove_bullet :: "nat \<Rightarrow> Game \<Rightarrow> Game" where
  "remove_bullet b g =
     (if b \<in> set (bullets g) then
        let g1 = g\<lparr>bullet_objs := (bullet_objs g)(b := (bullet_objs g b)\<lparr>alive := False\<rparr>)\<rparr>;
            g2 = g1\<lparr>canvas := canvas_delete b (canvas g1)\<rparr>
        in g2\<lparr>bullets := remove1 b (bullets g2)\<rparr>
      else g)"

text \<open>
  \<^verbatim>\<open>Game.game_over\<close>:
  \<^verbatim>\<open>
  def game_over(self):
      """Handle game over scenario."""
      self.is_game_over = True
      self.canvas.create_rectangle(0, 0, 800, 600, fill="black")  # Cover screen with black
      self.canvas.create_text(400, 300, text=f"Game Over! Final Score: {self.score}", font=("Arial", 24), fill="red")
      self.root.unbind("<KeyPress>")
      self.root.unbind("<KeyRelease>")
      self.root.unbind("<Motion>")
      self.root.after(5000, self.show_close_message)  # Show close message after 5 seconds
  \<close>
\<close>

definition game_over :: "Game \<Rightarrow> Game" where
  "game_over g =
     (let g1 = g\<lparr>is_game_over := True\<rparr>;
          c1 = snd (create_item (Rectangle 0 0 800 600) (canvas g1));
          c2 = snd (create_item (TextItem 400 300 (GameOverLabel (score g1))) c1);
          g2 = g1\<lparr>canvas := c2\<rparr>;
          g3 = g2\<lparr>bindings := bindings g2 - {KeyPress}\<rparr>;
          g4 = g3\<lparr>bindings := bindings g3 - {KeyRelease}\<rparr>;
          g5 = g4\<lparr>bindings := bindings g4 - {Motion}\<rparr>
      in after 5000 ShowCloseCb g5)"

definition show_close_message :: "Game \<Rightarrow> Game" where
  "show_close_message g = g\<lparr>canvas := snd (create_item (TextItem 400 350 CloseLabel) (canvas g))\<rparr>"

subsection \<open>Player\<close>

definition Player_init :: "real \<Rightarrow> real \<Rightarrow> Canvas \<Rightarrow> Player \<times> Canvas" where
  "Player_init start_x start_y c =
     (let (i, c1) = create_item (Image start_x start_y) c
      in (\<lparr>p_x = start_x, p_y = start_y, p_speed = 5, health = 3, p_id = i\<rparr>, c1))"

text \<open>
  \<^verbatim>\<open>Player.move\<close>, \<^verbatim>\<open>Player.shoot\<close> (modelled after the bullet) and \<^verbatim>\<open>Player.check_collision\<close>:
  \<^verbatim>\<open>
  def move(self, dx, dy):
      """Move the player by dx, dy and update its position on the canvas."""
      self.x += dx * self.speed
      self.y += dy * self.speed
      self.canvas.coords(self.id, self.x, self.y)
  
  def shoot(self, target_x, target_y):
      """Create a bullet aimed at the target coordinates if the game is not over."""
      if not self.game.is_game_over:
          return Bullet(self.canvas, self.x, self.y, target_x, target_y, self.game)
  
  def check_collision(self, enemy):
      """Check if the player has collided with a given enemy."""
      if math.hypot(self.x - enemy.x, self.y - enemy.y) < 20:
          self.health -= 1  # Reduce health on collision
          self.game.update_lives()  # Update the displayed health
          if self.health <= 0:
              self.game.game_over()  # End the game if health drops to zero
          return True
      return False
  \<close>
\<close>

definition Player_move :: "real \<Rightarrow> real \<Rightarrow> Game \<Rightarrow> Game" where
  "Player_move dx dy g =
     (let p = player g;
          p1 = p\<lparr>p_x := p_x p + dx * p_speed p\<rparr>;
          p2 = p1\<lparr>p_y := p_y p1 + dy * p_speed p1\<rparr>
      in g\<lparr>player := p2, canvas := canvas_coords (p_id p2) (Image (p_x p2) (p_y p2)) (canvas g)\<rparr>)"

definition Player_check_collision :: "nat \<Rightarrow> Game \<Rightarrow> bool \<times> Game" where
  "Player_check_collision e g =
     (if hypot (p_x (player g) - e_x (enemy_objs g e)) (p_y (player g) - e_y (enemy_objs g e)) < 20
      then
        let g1 = g\<lparr>player := (player g)\<lparr>health := health (player g) - 1\<rparr>\<rparr>;
            g2 = update_lives g1;
            g3 = (if health (player g2) \<le> 0 then game_over g2 else g2)
        in (True, g3)
      else (False, g))"

subsection \<open>Enemy\<close>

definition Enemy_init :: "real \<Rightarrow> real \<Rightarrow> Game \<Rightarrow> nat \<times> Game" where
  "Enemy_init x y g =
     (let (i, c1) = create_item (Image x y) (canvas g)
      in (i, g\<lparr>canvas := c1,
               enemy_objs := (enemy_objs g)(i := \<lparr>e_x = x, e_y = y, e_speed = 2\<rparr>)\<rparr>))"

text \<open>
  \<^verbatim>\<open>Enemy.move_towards\<close> and \<^verbatim>\<open>Enemy.is_hit\<close>:
  \<^verbatim>\<open>
  def move_towards(self, player_x, player_y):
      """Move the enemy towards the player's position."""
      dx, dy = player_x - self.x, player_y - self.y
      distance = max(math.hypot(dx, dy), 1)  # Avoid division by zero
      self.x += (dx / distance) * self.speed
      self.y += (dy / distance) * self.speed
      self.canvas.coords(self.id, self.x, self.y)
  
  def is_hit(self, bullet_x, bullet_y):
      """Check if the enemy has been hit by a bullet."""
      return math.hypot(self.x - bullet_x, self.y - bullet_y) < 20
  \<close>
\<close>

definition Enemy_move_towards :: "nat \<Rightarrow> real \<Rightarrow> real \<Rightarrow> Game \<Rightarrow> Game" where
  "Enemy_move_towards e player_x player_y g =
     (let en = enemy_objs g e;
          dx = player_x - e_x en;
          dy = player_y - e_y en;
          distance = max (hypot dx dy) 1;
          en1 = en\<lparr>e_x := e_x en + (dx / distance) * e_speed en\<rparr>;
          en2 = en1\<lparr>e_y := e_y en1 + (dy / distance) * e_speed en1\<rparr>
      in g\<lparr>enemy_objs := (enemy_objs g)(e := en2),
           canvas := canvas_coords e (Image (e_x en2) (e_y en2)) (canvas g)\<rparr>)"

definition Enemy_is_hit :: "nat \<Rightarrow> real \<Rightarrow> real \<Rightarrow> Game \<Rightarrow> bool" where
  "Enemy_is_hit e bullet_x bullet_y g =
     (hypot (e_x (enemy_objs g e) - bullet_x) (e_y (enemy_objs g e) - bullet_y) < 20)"

subsection \<open>Bullet\<close>

text \<open>
  \<^verbatim>\<open>Bullet.move\<close>, \<^verbatim>\<open>Bullet.is_in_bounds\<close> and \<^verbatim>\<open>Bullet.check_collision\<close>:
  \<^verbatim>\<open>
  def move(self):
      """Move the bullet and check for collisions or boundaries."""
      if not self.alive or self.game.is_game_over:
          return
      self.x += self.dx
      self.y += self.dy
      if not self.is_in_bounds():
          self.game.remove_bullet(self)  # Remove bullet if out of bounds
      else:
          self.canvas.coords(self.id, self.x - 5, self.y - 5, self.x + 5, self.y + 5)
          self.check_collision()  # Check if the bullet hits any enemy
          if self.alive:
              self.canvas.after(50, self.move)  # Continue moving the bullet
  
  def is_in_bounds(self):
      """Check if the bullet is within the canvas boundaries."""
      width, height = self.canvas.winfo_width(), self.canvas.winfo_height()
      return 0 <= self.x <= width and 0 <= self.y <= height
  
  def check_collision(self):
      """Check if the bullet has hit any enemy and update game state."""
      for enemy in self.game.enemies[:]:
          if enemy.is_hit(self.x, self.y):
              self.game.remove_enemy(enemy)  # Remove the hit enemy
              self.game.remove_bullet(self)  # Remove the bullet
              self.game.score += 1  # Increment score
              self.game.update_score()  # Update score display
              break
  \<close>
\<close>

definition Bullet_is_in_bounds :: "nat \<Rightarrow> Game \<Rightarrow> bool" where
  "Bullet_is_in_bounds b g =
     (let width = real_of_int (winfo_width (canvas g));
          height = real_of_int (winfo_height (canvas g))
      in (0 \<le> b_x (bullet_objs g b) \<and> b_x (bullet_objs g b) \<le> width) \<and>
         (0 \<le> b_y (bullet_objs g b) \<and> b_y (bullet_objs g b) \<le> height))"

text \<open>The loop of \<^verbatim>\<open>Bullet.check_collision\<close> over the snapshot \<^verbatim>\<open>self.game.enemies[:]\<close>.\<close>

fun Bullet_check_collision_loop :: "nat \<Rightarrow> nat list \<Rightarrow> Game \<Rightarrow> error + Game" where
  "Bullet_check_collision_loop b [] g = Inr g"
| "Bullet_check_collision_loop b (e # es) g =
     (if Enemy_is_hit e (b_x (bullet_objs g b)) (b_y (bullet_objs g b)) g then
        (case remove_enemy e g of
           Inl err \<Rightarrow> Inl err
         | Inr g1 \<Rightarrow>
             let g2 = remove_bullet b g1;
                 g3 = g2\<lparr>score := score g2 + 1\<rparr>
             in Inr (update_score g3))
      else Bullet_check_collision_loop b es g)"

definition Bullet_check_collision :: "nat \<Rightarrow> Game \<Rightarrow> error + Game" where
  "Bullet_check_collision b g = Bullet_check_collision_loop b (enemies g) g"

definition Bullet_move :: "nat \<Rightarrow> Game \<Rightarrow> error + Game" where
  "Bullet_move b g =
     (if \<not> alive (bullet_objs g b) \<or> is_game_over g then Inr g
      else
        let bo = bullet_objs g b;
            bo1 = bo\<lparr>b_x := b_x bo + b_dx bo\<rparr>;
            bo2 = bo1\<lparr>b_y := b_y bo1 + b_dy bo1\<rparr>;
            g1 = g\<lparr>bullet_objs := (bullet_objs g)(b := bo2)\<rparr>
        in if \<not> Bullet_is_in_bounds b g1 then Inr (remove_bullet b g1)
           else
             let g2 = g1\<lparr>canvas := canvas_coords b
                          (Oval (b_x bo2 - 5) (b_y bo2 - 5) (b_x bo2 + 5) (b_y bo2 + 5)) (canvas g1)\<rparr>
             in case Bullet_check_collision b g2 of
                  Inl err \<Rightarrow> Inl err
                | Inr g3 \<Rightarrow>
                    if alive (bullet_objs g3 b) then Inr (after 50 (BulletMoveCb b) g3)
                    else Inr g3)"

text \<open>
  \<^verbatim>\<open>Bullet.__init__\<close>, which ends with the first move of the bullet:
  \<^verbatim>\<open>
  def __init__(self, canvas, start_x, start_y, target_x, target_y, game):
      self.canvas = canvas  # The canvas on which the bullet is drawn
      self.x, self.y = start_x, start_y  # Initial position
      self.speed = 10  # Speed of the bullet
      # Calculate angle and velocity based on target coordinates
      self.angle = math.atan2(target_y - start_y, target_x - start_x)
      self.dx = self.speed * math.cos(self.angle)
      self.dy = self.speed * math.sin(self.angle)
      self.id = canvas.create_oval(self.x - 5, self.y - 5, self.x + 5, self.y + 5, fill="yellow")
      self.game = game  # The game instance
      self.alive = True  # Bullet is initially alive
      self.move()  # Start moving the bullet
  \<close>
\<close>

definition Bullet_init :: "real \<Rightarrow> real \<Rightarrow> real \<Rightarrow> real \<Rightarrow> Game \<Rightarrow> error + (nat \<times> Game)" where
  "Bullet_init start_x start_y target_x target_y g =
     (let speed = 10;
          ang = atan2 (target_y - start_y) (target_x - start_x);
          dx = speed * cos ang;
          dy = speed * sin ang;
          (i, c1) = create_item (Oval (start_x - 5) (start_y - 5) (start_x + 5) (start_y + 5)) (canvas g);
          bo = \<lparr>b_x = start_x, b_y = start_y, b_speed = speed, angle = ang,
                b_dx = dx, b_dy = dy, alive = True\<rparr>;
          g1 = g\<lparr>canvas := c1, bullet_objs := (bullet_objs g)(i := bo)\<rparr>
      in case Bullet_move i g1 of
           Inl err \<Rightarrow> Inl err
         | Inr g2 \<Rightarrow> Inr (i, g2))"

definition Player_shoot :: "real \<Rightarrow> real \<Rightarrow> Game \<Rightarrow> error + (nat option \<times> Game)" where
  "Player_shoot target_x target_y g =
     (if \<not> is_game_over g then
        (case Bullet_init (p_x (player g)) (p_y (player g)) target_x target_y g of
           Inl err \<Rightarrow> Inl err
         | Inr (b, g1) \<Rightarrow> Inr (Some b, g1))
      else Inr (None, g))"

subsection \<open>Game: the periodic tasks and the input handlers\<close>

definition setup_ui :: "Game \<Rightarrow> Game" where
  "setup_ui g =
     (let (i, c1) = create_item (TextItem 10 10 (ScoreLabel (score g))) (canvas g);
          g1 = g\<lparr>canvas := c1, score_text := i\<rparr>;
          (j, c2) = create_item (TextItem 10 40 (LivesLabel (health (player g1)))) (canvas g1)
      in g1\<lparr>canvas := c2, lives_text := j\<rparr>)"

definition setup_events :: "Game \<Rightarrow> Game" where
  "setup_events g =
     (let g1 = g\<lparr>bindings := insert KeyPress (bindings g)\<rparr>;
          g2 = g1\<lparr>bindings := insert KeyRelease (bindings g1)\<rparr>
      in g2\<lparr>bindings := insert Motion (bindings g2)\<rparr>)"

text \<open>
  \<^verbatim>\<open>Game.spawn_enemies\<close> and \<^verbatim>\<open>Game.spawn_enemies_periodically\<close>:
  \<^verbatim>\<open>
  def spawn_enemies(self, count):
      """Spawn a specified number of enemies at random positions."""
      for _ in range(count):
          x, y = random.randint(50, 750), random.randint(50, 550)
          self.enemies.append(Enemy(self.canvas, x, y))
  
  def spawn_enemies_periodically(self):
      """Periodically spawn enemies at intervals."""
      if not self.is_game_over:
          self.spawn_enemies(3)  # Spawn 3 enemies at a time
          self.root.after(5000, self.spawn_enemies_periodically)  # Call again after 5000ms
  \<close>
\<close>

fun spawn_enemies :: "nat \<Rightarrow> Game \<Rightarrow> Game" where
  "spawn_enemies 0 g = g"
| "spawn_enemies (Suc n) g =
     (let (x, g1) = randint 50 750 g;
          (y, g2) = randint 50 550 g1;
          (e, g3) = Enemy_init (real_of_int x) (real_of_int y) g2
      in spawn_enemies n (g3\<lparr>enemies := enemies g3 @ [e]\<rparr>))"

definition spawn_enemies_periodically :: "Game \<Rightarrow> Game" where
  "spawn_enemies_periodically g =
     (if \<not> is_game_over g then after 5000 SpawnCb (spawn_enemies 3 g) else g)"

definition track_mouse :: "real \<Rightarrow> real \<Rightarrow> Game \<Rightarrow> Game" where
  "track_mouse x y g = g\<lparr>mouse_x := Some x, mouse_y := Some y\<rparr>"

text \<open>The loop of \<^verbatim>\<open>Game.update\<close> over the snapshot \<^verbatim>\<open>self.enemies[:]\<close>.\<close>

fun update_loop :: "nat list \<Rightarrow> Game \<Rightarrow> error + Game" where
  "update_loop [] g = Inr g"
| "update_loop (e # es) g =
     (let g1 = Enemy_move_towards e (p_x (player g)) (p_y (player g)) g;
          r = Player_check_collision e g1
      in if fst r then
           (case remove_enemy e (snd r) of
              Inl err \<Rightarrow> Inl err
            | Inr g2 \<Rightarrow> update_loop es g2)
         else update_loop es (snd r))"

text \<open>
  \<^verbatim>\<open>Game.update\<close> and \<^verbatim>\<open>Game.shoot_continuously\<close>:
  \<^verbatim>\<open>
  def update(self):
      """Update game state, including player movement, enemy movement, and collisions."""
      if self.is_game_over:
          return
  
      dx = (('d' in self.pressed_keys) - ('a' in self.pressed_keys))
      dy = (('s' in self.pressed_keys) - ('w' in self.pressed_keys))
      self.player.move(dx, dy)  # Move player based on pressed keys
  
      for enemy in self.enemies[:]:
          enemy.move_towards(self.player.x, self.player.y)  # Move enemies towards player
          if self.player.check_collision(enemy):
              self.remove_enemy(enemy)  # Handle collision with player
  
      self.root.after(50, self.update)  # Continue updating game state
  
  def shoot_continuously(self):
      """Continuously shoot bullets towards the mouse cursor."""
      if not self.is_game_over and self.mouse_x is not None and self.mouse_y is not None:
          bullet = self.player.shoot(self.mouse_x, self.mouse_y)
          if bullet:
              self.bullets.append(bullet)
      self.root.after(500, self.shoot_continuously)  # Call again after 500ms
  \<close>
\<close>

definition update :: "Game \<Rightarrow> error + Game" where
  "update g =
     (if is_game_over g then Inr g
      else
        let dx = of_bool (''d'' \<in> pressed_keys g) - of_bool (''a'' \<in> pressed_keys g);
            dy = of_bool (''s'' \<in> pressed_keys g) - of_bool (''w'' \<in> pressed_keys g);
            g1 = Player_move dx dy g
        in case update_loop (enemies g1) g1 of
             Inl err \<Rightarrow> Inl err
           | Inr g2 \<Rightarrow> Inr (after 50 UpdateCb g2))"

definition shoot_continuously :: "Game \<Rightarrow> error + Game" where
  "shoot_continuously g =
     (case (if \<not> is_game_over g \<and> mouse_x g \<noteq> None \<and> mouse_y g \<noteq> None then
              (case Player_shoot (the (mouse_x g)) (the (mouse_y g)) g of
                 Inl err \<Rightarrow> Inl err
               | Inr (bullet, g1) \<Rightarrow>
                   (case bullet of
                      Some b \<Rightarrow> Inr (g1\<lparr>bullets := bullets g1 @ [b]\<rparr>)
                    | None \<Rightarrow> Inr g1))
            else Inr g) of
        Inl err \<Rightarrow> Inl err
      | Inr g2 \<Rightarrow> Inr (after 500 ShootCb g2))"

text \<open>
  \<^verbatim>\<open>Game.__init__\<close>. The size that the canvas reports and the source of random numbers
  are the environment's, so they are parameters.
\<close>

definition Game_init :: "int \<Rightarrow> int \<Rightarrow> (nat \<Rightarrow> nat) \<Rightarrow> error + Game" where
  "Game_init w h src =
     (let c0 = \<lparr>items = Map.empty, next_id = 1, winfo_width = w, winfo_height = h\<rparr>;
          (p, c1) = Player_init 100 100 c0;
          g0 = \<lparr>canvas = c1, player = p,
                enemy_objs = (\<lambda>_. \<lparr>e_x = 0, e_y = 0, e_speed = 0\<rparr>),
                bullet_objs = (\<lambda>_. \<lparr>b_x = 0, b_y = 0, b_speed = 0, angle = 0,
                                     b_dx = 0, b_dy = 0, alive = False\<rparr>),
                enemies = [], bullets = [], pressed_keys = {},
                mouse_x = None, mouse_y = None, is_game_over = False, score = 0,
                score_text = 0, lives_text = 0, bindings = {}, timers = [],
                rand_src = src, rand_ix = 0\<rparr>;
          g1 = setup_ui g0;
          g2 = setup_events g1
      in case update g2 of
           Inl err \<Rightarrow> Inl err
         | Inr g3 \<Rightarrow>
             (case shoot_continuously g3 of
                Inl err \<Rightarrow> Inl err
              | Inr g4 \<Rightarrow> Inr (spawn_enemies_periodically g4)))"

subsection \<open>The event loop\<close>

text \<open>
  \<^verbatim>\<open>root.mainloop()\<close> runs the callbacks: a pending timer fires (and is taken off the
  list of pending timers), or a bound input event arrives. Which timer fires next depends
  on real time; the model leaves the order open, so a run is any sequence of events.
\<close>

datatype event = Timer nat | KeyPressEv string | KeyReleaseEv string | MotionEv real real

definition run_callback :: "callback \<Rightarrow> Game \<Rightarrow> error + Game" where
  "run_callback cb g =
     (case cb of
        UpdateCb \<Rightarrow> update g
      | ShootCb \<Rightarrow> shoot_continuously g
      | SpawnCb \<Rightarrow> Inr (spawn_enemies_periodically g)
      | BulletMoveCb b \<Rightarrow> Bullet_move b g
      | ShowCloseCb \<Rightarrow> Inr (show_close_message g))"

definition step :: "event \<Rightarrow> Game \<Rightarrow> error + Game" where
  "step ev g =
     (case ev of
        Timer n \<Rightarrow>
          if n < length (timers g)
          then run_callback (snd (timers g ! n))
                 (g\<lparr>timers := take n (timers g) @ drop (Suc n) (timers g)\<rparr>)
          else Inr g
      | KeyPressEv k \<Rightarrow>
          Inr (if KeyPress \<in> bindings g then g\<lparr>pressed_keys := insert k (pressed_keys g)\<rparr> else g)
      | KeyReleaseEv k \<Rightarrow>
          Inr (if KeyRelease \<in> bindings g then g\<lparr>pressed_keys := pressed_keys g - {k}\<rparr> else g)
      | MotionEv x y \<Rightarrow>
          Inr (if Motion \<in> bindings g then track_mouse x y g else g))"

fun run :: "event list \<Rightarrow> Game \<Rightarrow> error + Game" where
  "run [] g = Inr g"
| "run (ev # evs) g = (case step ev g of Inl err \<Rightarrow> Inl err | Inr g1 \<Rightarrow> run evs g1)"

subsection \<open>References\<close>

text \<open>
  Every bullet of the game's list was created by the canvas: its id is below the next id
  that the canvas hands out. This holds in every state of a run, and it is what makes the
  reference of a new bullet different from those of the bullets that exist.
\<close>

definition ids_known :: "Game \<Rightarrow> bool" where
  "ids_known g \<longleftrightarrow> (\<forall>b\<in>set (bullets g). b < next_id (canvas g))"

subsection \<open>Scenarios\<close>

text \<open>
  Sources of random numbers for concrete runs. A draw \<open>n\<close> gives the coordinate
  \<open>50 + n\<close> (for \<open>n\<close> below the width of the range). With \<open>src_a\<close> the first three
  enemies appear at \<open>(100, 124)\<close> and later ones at \<open>(100, 122)\<close>; with \<open>src_b\<close> the first
  three appear at \<open>(123, 100)\<close>, \<open>(127, 100)\<close> and \<open>(700, 100)\<close>; with \<open>src_c\<close> all appear
  at \<open>(99, 100)\<close>; with \<open>src_d\<close> all appear at \<open>(700, 100)\<close>.
\<close>

definition src_a :: "nat \<Rightarrow> nat" where
  "src_a n = (if n < 6 then (if even n then 50 else 74) else (if even n then 50 else 72))"

definition src_b :: "nat \<Rightarrow> nat" where
  "src_b n = (if n = 0 then 73 else if n = 2 then 77 else if n = 4 then 650 else 50)"

definition src_c :: "nat \<Rightarrow> nat" where
  "src_c n = (if even n then 49 else 50)"

definition src_d :: "nat \<Rightarrow> nat" where
  "src_d n = (if even n then 650 else 50)"

section \<open>Properties\<close>

subsection \<open>Distances and angles\<close>

lemma hypot_zero_right: "hypot a 0 = \<bar>a\<bar>" by (simp add: hypot_def)

lemma hypot_zero_left: "hypot 0 b = \<bar>b\<bar>" by (simp add: hypot_def)

lemma hypot_dist: "hypot (a - c) (b - d) = dist (Complex a b) (Complex c d)"
  by (simp add: hypot_def dist_norm cmod_def)

lemma atan2_0_0: "atan2 0 0 = 0" by (simp add: atan2_def)

text \<open>
  The angle that \<open>atan2\<close> gives is the polar angle of the vector: the vector is its
  length times the cosine and the sine of the angle, and the angle lies in \<open>(-pi, pi]\<close>.
\<close>

lemma hypot_pos_x: "0 < x \<Longrightarrow> hypot x y = x * sqrt (1 + (y / x)\<^sup>2)"
proof -
  assume x: "0 < x"
  have "x\<^sup>2 + y\<^sup>2 = x\<^sup>2 * (1 + (y / x)\<^sup>2)"
    using x by (simp add: field_simps power2_eq_square)
  then have "hypot x y = sqrt (x\<^sup>2 * (1 + (y / x)\<^sup>2))" by (simp add: hypot_def)
  also have "\<dots> = \<bar>x\<bar> * sqrt (1 + (y / x)\<^sup>2)" by (simp add: real_sqrt_mult)
  finally show ?thesis using x by simp
qed

lemma hypot_neg_x: "x < 0 \<Longrightarrow> hypot x y = - x * sqrt (1 + (y / x)\<^sup>2)"
proof -
  assume x: "x < 0"
  have "x\<^sup>2 + y\<^sup>2 = x\<^sup>2 * (1 + (y / x)\<^sup>2)"
    using x by (simp add: field_simps power2_eq_square)
  then have "hypot x y = sqrt (x\<^sup>2 * (1 + (y / x)\<^sup>2))" by (simp add: hypot_def)
  also have "\<dots> = \<bar>x\<bar> * sqrt (1 + (y / x)\<^sup>2)" by (simp add: real_sqrt_mult)
  finally show ?thesis using x by simp
qed

lemma sqrt_one_plus_pos: "0 < sqrt (1 + t\<^sup>2)"
  by (simp add: add_pos_nonneg)

lemma atan2_polar:
  "hypot x y * cos (atan2 y x) = x \<and> hypot x y * sin (atan2 y x) = y"
proof -
  consider "0 < x" | "x < 0" "0 \<le> y" | "x < 0" "y < 0" | "x = 0" "0 < y" | "x = 0" "y < 0" | "x = 0" "y = 0"
    by linarith
  then show ?thesis
  proof cases
    case 1
    then show ?thesis
      using sqrt_one_plus_pos[of "y / x"]
      by (simp add: atan2_def hypot_pos_x cos_arctan sin_arctan)
  next
    case 2
    then show ?thesis
      using sqrt_one_plus_pos[of "y / x"]
      by (simp add: atan2_def hypot_neg_x cos_arctan sin_arctan)
  next
    case 3
    then show ?thesis
      using sqrt_one_plus_pos[of "y / x"]
      by (simp add: atan2_def hypot_neg_x cos_arctan sin_arctan)
  next
    case 4
    then show ?thesis by (simp add: atan2_def hypot_zero_left)
  next
    case 5
    then show ?thesis by (simp add: atan2_def hypot_zero_left)
  next
    case 6
    then show ?thesis by (simp add: atan2_def hypot_def)
  qed
qed

lemma atan2_range: "- pi < atan2 y x \<and> atan2 y x \<le> pi"
proof -
  have a: "- (pi / 2) < arctan (y / x)" "arctan (y / x) < pi / 2"
    by (rule arctan_lbound, rule arctan_ubound)
  have p: "0 < pi" by (rule pi_gt_zero)
  consider "0 < x" | "x < 0" "0 \<le> y" | "x < 0" "y < 0" | "x = 0"
    by linarith
  then show ?thesis
  proof cases
    case 1
    then have "atan2 y x = arctan (y / x)" by (simp add: atan2_def)
    with a p show ?thesis by linarith
  next
    case 2
    then have "y / x \<le> 0" by (simp add: divide_nonneg_neg)
    then have "arctan (y / x) \<le> 0" by simp
    moreover from 2 have "atan2 y x = arctan (y / x) + pi" by (simp add: atan2_def)
    ultimately show ?thesis using a p by linarith
  next
    case 3
    then have "0 < y / x" by (simp add: divide_neg_neg)
    then have "0 < arctan (y / x)" by simp
    moreover from 3 have "atan2 y x = arctan (y / x) - pi" by (simp add: atan2_def)
    ultimately show ?thesis using a p by linarith
  next
    case 4
    then have "atan2 y x = pi / 2 \<or> atan2 y x = - (pi / 2) \<or> atan2 y x = 0"
      by (simp add: atan2_def)
    with p show ?thesis by linarith
  qed
qed

subsection \<open>Removal\<close>

lemma remove_enemy_member:
  "e \<in> set (enemies g) \<Longrightarrow>
   remove_enemy e g =
     Inr (update_score (g\<lparr>canvas := canvas_delete e (canvas g), enemies := remove1 e (enemies g)\<rparr>))"
  by (simp add: remove_enemy_def)

lemma remove_enemy_non_member: "e \<notin> set (enemies g) \<Longrightarrow> remove_enemy e g = Inl ValueError"
  by (simp add: remove_enemy_def)

lemma remove_bullet_non_member: "b \<notin> set (bullets g) \<Longrightarrow> remove_bullet b g = g"
  by (simp add: remove_bullet_def)

subsection \<open>The collision check of a bullet\<close>

text \<open>The collision loop stops at the first enemy that is hit.\<close>

lemma Bullet_check_collision_loop_find:
  "Bullet_check_collision_loop b es g =
     (case List.find (\<lambda>e. Enemy_is_hit e (b_x (bullet_objs g b)) (b_y (bullet_objs g b)) g) es of
        None \<Rightarrow> Inr g
      | Some e \<Rightarrow>
          (case remove_enemy e g of
             Inl err \<Rightarrow> Inl err
           | Inr g1 \<Rightarrow> Inr (update_score ((remove_bullet b g1)\<lparr>score := score (remove_bullet b g1) + 1\<rparr>))))"
  by (induction es) (simp_all add: Let_def split: sum.splits)

lemma find_member: "List.find P xs = Some x \<Longrightarrow> x \<in> set xs"
  by (induction xs) (auto split: if_splits)

lemma Bullet_check_collision_eq:
  "Bullet_check_collision b g =
     (case List.find (\<lambda>e. Enemy_is_hit e (b_x (bullet_objs g b)) (b_y (bullet_objs g b)) g) (enemies g) of
        None \<Rightarrow> Inr g
      | Some e \<Rightarrow>
          Inr (let g1 = update_score (g\<lparr>canvas := canvas_delete e (canvas g), enemies := remove1 e (enemies g)\<rparr>)
               in update_score ((remove_bullet b g1)\<lparr>score := score (remove_bullet b g1) + 1\<rparr>)))"
  unfolding Bullet_check_collision_def Bullet_check_collision_loop_find
  by (auto split: option.splits simp: remove_enemy_member find_member Let_def)

lemma bullet_objs_update_score [simp]: "bullet_objs (update_score g) = bullet_objs g"
  by (simp add: update_score_def)

lemma bullets_update_score [simp]: "bullets (update_score g) = bullets g"
  by (simp add: update_score_def)

subsection \<open>What the operations leave unchanged\<close>

lemma next_id_canvas_coords [simp]: "next_id (canvas_coords i it c) = next_id c"
  by (simp add: canvas_coords_def)

lemma next_id_canvas_delete [simp]: "next_id (canvas_delete i c) = next_id c"
  by (simp add: canvas_delete_def)

lemma next_id_itemconfig [simp]: "next_id (itemconfig i l c) = next_id c"
  by (simp add: itemconfig_def split: option.splits item.splits)

lemma next_id_create_item [simp]: "next_id (snd (create_item it c)) = Suc (next_id c)"
  by (simp add: create_item_def)

lemma fst_create_item [simp]: "fst (create_item it c) = next_id c"
  by (simp add: create_item_def)

lemmas small_defs = update_score_def update_lives_def after_def game_over_def
  Player_check_collision_def Enemy_move_towards_def Player_move_def Let_def

lemma Player_check_collision_frame [simp]:
  "enemies (snd (Player_check_collision e g)) = enemies g"
  "bullets (snd (Player_check_collision e g)) = bullets g"
  "bullet_objs (snd (Player_check_collision e g)) = bullet_objs g"
  "enemy_objs (snd (Player_check_collision e g)) = enemy_objs g"
  "score (snd (Player_check_collision e g)) = score g"
  by (simp_all add: small_defs)

lemma Player_check_collision_next_id:
  "next_id (canvas g) \<le> next_id (canvas (snd (Player_check_collision e g)))"
  by (simp add: small_defs)

lemma Player_check_collision_health:
  "health (player (snd (Player_check_collision e g))) =
     (if fst (Player_check_collision e g) then health (player g) - 1 else health (player g))"
  by (simp add: small_defs)

lemma Player_check_collision_over:
  "is_game_over (snd (Player_check_collision e g)) =
     (is_game_over g \<or> fst (Player_check_collision e g) \<and> health (player g) \<le> 1)"
  by (auto simp add: small_defs)

lemma Enemy_move_towards_frame [simp]:
  "enemies (Enemy_move_towards e x y g) = enemies g"
  "bullets (Enemy_move_towards e x y g) = bullets g"
  "bullet_objs (Enemy_move_towards e x y g) = bullet_objs g"
  "player (Enemy_move_towards e x y g) = player g"
  "is_game_over (Enemy_move_towards e x y g) = is_game_over g"
  "score (Enemy_move_towards e x y g) = score g"
  "next_id (canvas (Enemy_move_towards e x y g)) = next_id (canvas g)"
  by (simp_all add: small_defs)

lemma remove_enemy_frame:
  assumes "remove_enemy e g = Inr g'"
  shows "enemies g' = remove1 e (enemies g)" "bullets g' = bullets g"
    "bullet_objs g' = bullet_objs g" "enemy_objs g' = enemy_objs g"
    "player g' = player g" "is_game_over g' = is_game_over g" "score g' = score g"
    "next_id (canvas g') = next_id (canvas g)" "timers g' = timers g"
  using assms by (auto simp add: remove_enemy_def small_defs split: if_splits)

subsection \<open>The update loop\<close>

text \<open>
  The loop removes only enemies of its own snapshot, each once, so \<^verbatim>\<open>list.remove\<close>
  never raises in it: the rest of the snapshot stays a sub-multiset of the list.
\<close>

lemma update_loop_total:
  "mset es \<subseteq># mset (enemies g) \<Longrightarrow> \<exists>g'. update_loop es g = Inr g'"
proof (induction es arbitrary: g)
  case Nil
  show ?case by simp
next
  case (Cons e es)
  define r where "r = Player_check_collision e (Enemy_move_towards e (p_x (player g)) (p_y (player g)) g)"
  have en: "enemies (snd r) = enemies g" by (simp add: r_def)
  from Cons.prems have mem: "e \<in># mset (enemies g)" and rest: "mset es \<subseteq># mset (enemies g) - {#e#}"
    by (simp_all add: insert_subset_eq_iff)
  show ?case
  proof (cases "fst r")
    case True
    from mem en have "e \<in> set (enemies (snd r))" by simp
    then obtain g2 where g2: "remove_enemy e (snd r) = Inr g2"
      by (auto simp add: remove_enemy_member)
    from remove_enemy_frame(1)[OF g2] en rest have "mset es \<subseteq># mset (enemies g2)" by simp
    from Cons.IH[OF this] obtain g' where "update_loop es g2 = Inr g'" ..
    with True g2 show ?thesis by (simp add: r_def[symmetric] Let_def)
  next
    case False
    from rest have "mset es \<subseteq># mset (enemies (snd r))"
      using en by (metis diff_subset_eq_self subset_mset.order_trans)
    from Cons.IH[OF this] obtain g' where "update_loop es (snd r) = Inr g'" ..
    with False show ?thesis by (simp add: r_def[symmetric] Let_def)
  qed
qed

lemma update_loop_health:
  "update_loop es g = Inr g' \<Longrightarrow>
     health (player g') \<le> health (player g) \<and>
     (is_game_over g \<longrightarrow> is_game_over g') \<and>
     ((is_game_over g \<longleftrightarrow> health (player g) \<le> 0) \<longrightarrow> (is_game_over g' \<longleftrightarrow> health (player g') \<le> 0))"
proof (induction es arbitrary: g)
  case Nil
  then show ?case by simp
next
  case (Cons e es)
  define g1 where "g1 = Enemy_move_towards e (p_x (player g)) (p_y (player g)) g"
  define r where "r = Player_check_collision e g1"
  have h: "health (player (snd r)) \<le> health (player g)"
    and o: "is_game_over g \<longrightarrow> is_game_over (snd r)"
    and j: "(is_game_over g \<longleftrightarrow> health (player g) \<le> 0) \<longrightarrow>
            (is_game_over (snd r) \<longleftrightarrow> health (player (snd r)) \<le> 0)"
    by (auto simp add: r_def g1_def Player_check_collision_health Player_check_collision_over)
  show ?case
  proof (cases "fst r")
    case True
    with Cons.prems obtain g2 where g2: "remove_enemy e (snd r) = Inr g2" and l: "update_loop es g2 = Inr g'"
      by (auto simp add: r_def[symmetric] g1_def[symmetric] Let_def split: sum.splits)
    from Cons.IH[OF l] remove_enemy_frame(5,6)[OF g2] h o j show ?thesis by auto
  next
    case False
    with Cons.prems have l: "update_loop es (snd r) = Inr g'"
      by (auto simp add: r_def[symmetric] g1_def[symmetric] Let_def)
    from Cons.IH[OF l] h o j show ?thesis by auto
  qed
qed

subsection \<open>Bullets\<close>

lemma Bullet_move_dead: "\<not> alive (bullet_objs g b) \<or> is_game_over g \<Longrightarrow> Bullet_move b g = Inr g"
  by (simp add: Bullet_move_def)

lemma Bullet_move_effect:
  "\<exists>g'. Bullet_move b g = Inr g' \<and>
     player g' = player g \<and> is_game_over g' = is_game_over g \<and>
     next_id (canvas g') = next_id (canvas g) \<and>
     (\<forall>r. r \<noteq> b \<longrightarrow> bullet_objs g' r = bullet_objs g r) \<and>
     b_dx (bullet_objs g' b) = b_dx (bullet_objs g b) \<and>
     b_dy (bullet_objs g' b) = b_dy (bullet_objs g b) \<and>
     angle (bullet_objs g' b) = angle (bullet_objs g b) \<and>
     b_speed (bullet_objs g' b) = b_speed (bullet_objs g b) \<and>
     b_x (bullet_objs g' b) =
       (if alive (bullet_objs g b) \<and> \<not> is_game_over g
        then b_x (bullet_objs g b) + b_dx (bullet_objs g b) else b_x (bullet_objs g b)) \<and>
     b_y (bullet_objs g' b) =
       (if alive (bullet_objs g b) \<and> \<not> is_game_over g
        then b_y (bullet_objs g b) + b_dy (bullet_objs g b) else b_y (bullet_objs g b))"
  by (simp add: Bullet_move_def Bullet_check_collision_eq remove_bullet_def small_defs
           split: option.splits)

lemma Bullet_init_effect:
  "\<exists>g'. Bullet_init sx sy tx ty g = Inr (next_id (canvas g), g') \<and>
     player g' = player g \<and> is_game_over g' = is_game_over g \<and>
     next_id (canvas g') = Suc (next_id (canvas g)) \<and>
     (\<forall>r. r \<noteq> next_id (canvas g) \<longrightarrow> bullet_objs g' r = bullet_objs g r) \<and>
     angle (bullet_objs g' (next_id (canvas g))) = atan2 (ty - sy) (tx - sx) \<and>
     b_dx (bullet_objs g' (next_id (canvas g))) = 10 * cos (atan2 (ty - sy) (tx - sx)) \<and>
     b_dy (bullet_objs g' (next_id (canvas g))) = 10 * sin (atan2 (ty - sy) (tx - sx)) \<and>
     b_speed (bullet_objs g' (next_id (canvas g))) = 10 \<and>
     b_x (bullet_objs g' (next_id (canvas g))) =
       (if is_game_over g then sx else sx + 10 * cos (atan2 (ty - sy) (tx - sx))) \<and>
     b_y (bullet_objs g' (next_id (canvas g))) =
       (if is_game_over g then sy else sy + 10 * sin (atan2 (ty - sy) (tx - sx)))"
proof -
  define i where "i = next_id (canvas g)"
  define bo where "bo = \<lparr>b_x = sx, b_y = sy, b_speed = 10, angle = atan2 (ty - sy) (tx - sx),
      b_dx = 10 * cos (atan2 (ty - sy) (tx - sx)), b_dy = 10 * sin (atan2 (ty - sy) (tx - sx)),
      alive = True\<rparr>"
  define g1 where "g1 = g\<lparr>canvas := snd (create_item (Oval (sx - 5) (sy - 5) (sx + 5) (sy + 5)) (canvas g)),
      bullet_objs := (bullet_objs g)(i := bo)\<rparr>"
  have init: "Bullet_init sx sy tx ty g = (case Bullet_move i g1 of Inl err \<Rightarrow> Inl err | Inr g2 \<Rightarrow> Inr (i, g2))"
    unfolding Bullet_init_def Let_def g1_def bo_def i_def create_item_def by simp
  obtain g' where m: "Bullet_move i g1 = Inr g'" and
     f: "player g' = player g1" "is_game_over g' = is_game_over g1"
        "next_id (canvas g') = next_id (canvas g1)"
        "\<forall>r. r \<noteq> i \<longrightarrow> bullet_objs g' r = bullet_objs g1 r"
        "b_dx (bullet_objs g' i) = b_dx (bullet_objs g1 i)"
        "b_dy (bullet_objs g' i) = b_dy (bullet_objs g1 i)"
        "angle (bullet_objs g' i) = angle (bullet_objs g1 i)"
        "b_speed (bullet_objs g' i) = b_speed (bullet_objs g1 i)"
        "b_x (bullet_objs g' i) = (if alive (bullet_objs g1 i) \<and> \<not> is_game_over g1
            then b_x (bullet_objs g1 i) + b_dx (bullet_objs g1 i) else b_x (bullet_objs g1 i))"
        "b_y (bullet_objs g' i) = (if alive (bullet_objs g1 i) \<and> \<not> is_game_over g1
            then b_y (bullet_objs g1 i) + b_dy (bullet_objs g1 i) else b_y (bullet_objs g1 i))"
    using Bullet_move_effect[of i g1] by blast
  show ?thesis
    using f unfolding init m by (simp add: g1_def bo_def i_def)
qed

subsection \<open>The periodic tasks\<close>

lemma shoot_continuously_effect:
  "\<exists>g'. shoot_continuously g = Inr g' \<and>
     player g' = player g \<and> is_game_over g' = is_game_over g \<and>
     next_id (canvas g) \<le> next_id (canvas g') \<and>
     (\<forall>r. r < next_id (canvas g) \<longrightarrow> bullet_objs g' r = bullet_objs g r)"
proof (cases "\<not> is_game_over g \<and> mouse_x g \<noteq> None \<and> mouse_y g \<noteq> None")
  case True
  obtain g1 where b: "Bullet_init (p_x (player g)) (p_y (player g)) (the (mouse_x g)) (the (mouse_y g)) g
        = Inr (next_id (canvas g), g1)"
    and f: "player g1 = player g" "is_game_over g1 = is_game_over g"
      "next_id (canvas g1) = Suc (next_id (canvas g))"
      "\<forall>r. r \<noteq> next_id (canvas g) \<longrightarrow> bullet_objs g1 r = bullet_objs g r"
    using Bullet_init_effect[of "p_x (player g)" "p_y (player g)" "the (mouse_x g)" "the (mouse_y g)" g]
    by blast
  from True b have "shoot_continuously g =
      Inr (after 500 ShootCb (g1\<lparr>bullets := bullets g1 @ [next_id (canvas g)]\<rparr>))"
    by (simp add: shoot_continuously_def Player_shoot_def)
  with f show ?thesis by (simp add: after_def)
next
  case False
  then have "shoot_continuously g = Inr (after 500 ShootCb g)"
    by (auto simp add: shoot_continuously_def)
  then show ?thesis by (simp add: after_def)
qed

lemma spawn_enemies_frame:
  "player (spawn_enemies n g) = player g \<and>
   is_game_over (spawn_enemies n g) = is_game_over g \<and>
   bullet_objs (spawn_enemies n g) = bullet_objs g \<and>
   bullets (spawn_enemies n g) = bullets g \<and>
   score (spawn_enemies n g) = score g \<and>
   timers (spawn_enemies n g) = timers g \<and>
   next_id (canvas g) \<le> next_id (canvas (spawn_enemies n g))"
proof (induction n arbitrary: g)
  case 0
  show ?case by simp
next
  case (Suc n)
  define g3 where "g3 = snd (Enemy_init (real_of_int (fst (randint 50 750 g)))
      (real_of_int (fst (randint 50 550 (snd (randint 50 750 g))))) (snd (randint 50 550 (snd (randint 50 750 g)))))"
  define e where "e = fst (Enemy_init (real_of_int (fst (randint 50 750 g)))
      (real_of_int (fst (randint 50 550 (snd (randint 50 750 g))))) (snd (randint 50 550 (snd (randint 50 750 g)))))"
  have s: "spawn_enemies (Suc n) g = spawn_enemies n (g3\<lparr>enemies := enemies g3 @ [e]\<rparr>)"
    by (simp add: g3_def e_def case_prod_beta Let_def)
  have f: "player g3 = player g" "is_game_over g3 = is_game_over g" "bullet_objs g3 = bullet_objs g"
     "bullets g3 = bullets g" "score g3 = score g" "timers g3 = timers g"
     "next_id (canvas g) \<le> next_id (canvas g3)"
    by (simp_all add: g3_def Enemy_init_def randint_def case_prod_beta Let_def)
  show ?case unfolding s using Suc.IH[of "g3\<lparr>enemies := enemies g3 @ [e]\<rparr>"] f by simp
qed

lemma update_loop_frame:
  "update_loop es g = Inr g' \<Longrightarrow>
     bullet_objs g' = bullet_objs g \<and> bullets g' = bullets g \<and> score g' = score g \<and>
     next_id (canvas g) \<le> next_id (canvas g')"
proof (induction es arbitrary: g)
  case Nil
  then show ?case by simp
next
  case (Cons e es)
  define r where "r = Player_check_collision e (Enemy_move_towards e (p_x (player g)) (p_y (player g)) g)"
  have f: "bullet_objs (snd r) = bullet_objs g" "bullets (snd r) = bullets g" "score (snd r) = score g"
     "next_id (canvas g) \<le> next_id (canvas (snd r))"
    using Player_check_collision_next_id[of "Enemy_move_towards e (p_x (player g)) (p_y (player g)) g" e]
    by (simp_all add: r_def)
  show ?case
  proof (cases "fst r")
    case True
    with Cons.prems obtain g2 where g2: "remove_enemy e (snd r) = Inr g2" and l: "update_loop es g2 = Inr g'"
      by (auto simp add: r_def[symmetric] Let_def split: sum.splits)
    from Cons.IH[OF l] remove_enemy_frame[OF g2] f show ?thesis by simp
  next
    case False
    with Cons.prems have l: "update_loop es (snd r) = Inr g'"
      by (auto simp add: r_def[symmetric] Let_def)
    from Cons.IH[OF l] f show ?thesis by simp
  qed
qed

lemma Player_move_frame [simp]:
  "enemies (Player_move dx dy g) = enemies g"
  "bullets (Player_move dx dy g) = bullets g"
  "bullet_objs (Player_move dx dy g) = bullet_objs g"
  "enemy_objs (Player_move dx dy g) = enemy_objs g"
  "is_game_over (Player_move dx dy g) = is_game_over g"
  "score (Player_move dx dy g) = score g"
  "health (player (Player_move dx dy g)) = health (player g)"
  "next_id (canvas (Player_move dx dy g)) = next_id (canvas g)"
  by (simp_all add: small_defs)

lemma update_effect:
  "\<exists>g'. update g = Inr g' \<and>
     health (player g') \<le> health (player g) \<and>
     (is_game_over g \<longrightarrow> g' = g) \<and>
     ((is_game_over g \<longleftrightarrow> health (player g) \<le> 0) \<longrightarrow> (is_game_over g' \<longleftrightarrow> health (player g') \<le> 0)) \<and>
     bullet_objs g' = bullet_objs g \<and> bullets g' = bullets g \<and> score g' = score g \<and>
     next_id (canvas g) \<le> next_id (canvas g')"
proof (cases "is_game_over g")
  case True
  then show ?thesis by (simp add: update_def)
next
  case False
  define g1 where "g1 = Player_move (of_bool (''d'' \<in> pressed_keys g) - of_bool (''a'' \<in> pressed_keys g))
      (of_bool (''s'' \<in> pressed_keys g) - of_bool (''w'' \<in> pressed_keys g)) g"
  obtain g2 where l: "update_loop (enemies g1) g1 = Inr g2"
    using update_loop_total[of "enemies g1" g1] by auto
  from l have l': "update_loop (enemies g) g1 = Inr g2"
    by (simp add: g1_def)
  have "update g = (case update_loop (enemies g) g1 of Inl err \<Rightarrow> Inl err
      | Inr g2 \<Rightarrow> Inr (after 50 UpdateCb g2))"
    using False unfolding update_def Let_def g1_def by simp
  with l' have u: "update g = Inr (after 50 UpdateCb g2)"
    by simp
  from update_loop_health[OF l] update_loop_frame[OF l] False
  show ?thesis unfolding u by (simp add: after_def g1_def)
qed

subsection \<open>Events and runs\<close>

lemma run_callback_effect:
  "\<exists>g'. run_callback cb g = Inr g' \<and>
     health (player g') \<le> health (player g) \<and>
     (is_game_over g \<longrightarrow> is_game_over g' \<and> health (player g') = health (player g)) \<and>
     ((is_game_over g \<longleftrightarrow> health (player g) \<le> 0) \<longrightarrow> (is_game_over g' \<longleftrightarrow> health (player g') \<le> 0)) \<and>
     next_id (canvas g) \<le> next_id (canvas g') \<and>
     (\<forall>r. r < next_id (canvas g) \<and> \<not> alive (bullet_objs g r) \<longrightarrow> bullet_objs g' r = bullet_objs g r)"
proof (cases cb)
  case UpdateCb
  then show ?thesis using update_effect[of g] by (auto simp add: run_callback_def)
next
  case ShootCb
  then show ?thesis using shoot_continuously_effect[of g] by (auto simp add: run_callback_def)
next
  case SpawnCb
  then show ?thesis using spawn_enemies_frame[of 3 g]
    by (simp add: run_callback_def spawn_enemies_periodically_def after_def)
next
  case (BulletMoveCb b)
  show ?thesis
  proof (cases "alive (bullet_objs g b)")
    case True
    then show ?thesis using Bullet_move_effect[of b g] BulletMoveCb
      by (auto simp add: run_callback_def)
  next
    case False
    then show ?thesis using BulletMoveCb by (simp add: run_callback_def Bullet_move_dead)
  qed
next
  case ShowCloseCb
  then show ?thesis by (simp add: run_callback_def show_close_message_def)
qed

lemma step_effect:
  "\<exists>g'. step ev g = Inr g' \<and>
     health (player g') \<le> health (player g) \<and>
     (is_game_over g \<longrightarrow> is_game_over g' \<and> health (player g') = health (player g)) \<and>
     ((is_game_over g \<longleftrightarrow> health (player g) \<le> 0) \<longrightarrow> (is_game_over g' \<longleftrightarrow> health (player g') \<le> 0)) \<and>
     next_id (canvas g) \<le> next_id (canvas g') \<and>
     (\<forall>r. r < next_id (canvas g) \<and> \<not> alive (bullet_objs g r) \<longrightarrow> bullet_objs g' r = bullet_objs g r)"
proof (cases ev)
  case (Timer n)
  show ?thesis
  proof (cases "n < length (timers g)")
    case True
    then show ?thesis
      using Timer run_callback_effect[of "snd (timers g ! n)" "g\<lparr>timers := take n (timers g) @ drop (Suc n) (timers g)\<rparr>"]
      by (simp add: step_def)
  next
    case False
    then show ?thesis using Timer by (simp add: step_def)
  qed
next
  case (KeyPressEv k)
  then show ?thesis by (simp add: step_def)
next
  case (KeyReleaseEv k)
  then show ?thesis by (simp add: step_def)
next
  case (MotionEv x y)
  then show ?thesis by (simp add: step_def track_mouse_def)
qed

lemma run_effect:
  "\<exists>g'. run evs g = Inr g' \<and>
     health (player g') \<le> health (player g) \<and>
     (is_game_over g \<longrightarrow> is_game_over g' \<and> health (player g') = health (player g)) \<and>
     ((is_game_over g \<longleftrightarrow> health (player g) \<le> 0) \<longrightarrow> (is_game_over g' \<longleftrightarrow> health (player g') \<le> 0)) \<and>
     next_id (canvas g) \<le> next_id (canvas g') \<and>
     (\<forall>r. r < next_id (canvas g) \<and> \<not> alive (bullet_objs g r) \<longrightarrow> bullet_objs g' r = bullet_objs g r)"
proof (induction evs arbitrary: g)
  case Nil
  show ?case by simp
next
  case (Cons ev evs)
  obtain g1 where s: "step ev g = Inr g1"
    and s1: "health (player g1) \<le> health (player g)"
    and s2: "is_game_over g \<longrightarrow> is_game_over g1 \<and> health (player g1) = health (player g)"
    and s3: "(is_game_over g \<longleftrightarrow> health (player g) \<le> 0) \<longrightarrow> (is_game_over g1 \<longleftrightarrow> health (player g1) \<le> 0)"
    and s4: "next_id (canvas g) \<le> next_id (canvas g1)"
    and s5: "\<forall>r. r < next_id (canvas g) \<and> \<not> alive (bullet_objs g r) \<longrightarrow> bullet_objs g1 r = bullet_objs g r"
    using step_effect[of ev g] by blast
  obtain g' where r: "run evs g1 = Inr g'"
    and r1: "health (player g') \<le> health (player g1)"
    and r2: "is_game_over g1 \<longrightarrow> is_game_over g' \<and> health (player g') = health (player g1)"
    and r3: "(is_game_over g1 \<longleftrightarrow> health (player g1) \<le> 0) \<longrightarrow> (is_game_over g' \<longleftrightarrow> health (player g') \<le> 0)"
    and r4: "next_id (canvas g1) \<le> next_id (canvas g')"
    and r5: "\<forall>r. r < next_id (canvas g1) \<and> \<not> alive (bullet_objs g1 r) \<longrightarrow> bullet_objs g' r = bullet_objs g1 r"
    using Cons.IH[of g1] by blast
  have "run (ev # evs) g = Inr g'" using s r by simp
  moreover have "health (player g') \<le> health (player g)" using s1 r1 by simp
  moreover have "is_game_over g \<longrightarrow> is_game_over g' \<and> health (player g') = health (player g)"
    using s2 r2 by simp
  moreover have "(is_game_over g \<longleftrightarrow> health (player g) \<le> 0) \<longrightarrow> (is_game_over g' \<longleftrightarrow> health (player g') \<le> 0)"
    using s3 r3 by blast
  moreover have "next_id (canvas g) \<le> next_id (canvas g')" using s4 r4 by simp
  moreover have "\<forall>r. r < next_id (canvas g) \<and> \<not> alive (bullet_objs g r) \<longrightarrow> bullet_objs g' r = bullet_objs g r"
  proof (intro allI impI)
    fix r assume a: "r < next_id (canvas g) \<and> \<not> alive (bullet_objs g r)"
    with s5 have e1: "bullet_objs g1 r = bullet_objs g r" by simp
    with a s4 have "r < next_id (canvas g1) \<and> \<not> alive (bullet_objs g1 r)" by simp
    with r5 have "bullet_objs g' r = bullet_objs g1 r" by simp
    with e1 show "bullet_objs g' r = bullet_objs g r" by simp
  qed
  ultimately show ?case by blast
qed

lemma update_no_enemies:
  "\<not> is_game_over g \<Longrightarrow> enemies g = [] \<Longrightarrow>
   update g = Inr (after 50 UpdateCb
     (Player_move (of_bool (''d'' \<in> pressed_keys g) - of_bool (''a'' \<in> pressed_keys g))
        (of_bool (''s'' \<in> pressed_keys g) - of_bool (''w'' \<in> pressed_keys g)) g))"
  by (simp add: update_def Let_def)

lemma Game_init_effect:
  "\<exists>g0. Game_init w h src = Inr g0 \<and> health (player g0) = 3 \<and> \<not> is_game_over g0"
proof -
  define g2 where "g2 = setup_events (setup_ui
     \<lparr>canvas = snd (Player_init 100 100 \<lparr>items = Map.empty, next_id = 1, winfo_width = w, winfo_height = h\<rparr>),
      player = fst (Player_init 100 100 \<lparr>items = Map.empty, next_id = 1, winfo_width = w, winfo_height = h\<rparr>),
      enemy_objs = (\<lambda>_. \<lparr>e_x = 0, e_y = 0, e_speed = 0\<rparr>),
      bullet_objs = (\<lambda>_. \<lparr>b_x = 0, b_y = 0, b_speed = 0, angle = 0, b_dx = 0, b_dy = 0, alive = False\<rparr>),
      enemies = [], bullets = [], pressed_keys = {},
      mouse_x = None, mouse_y = None, is_game_over = False, score = 0,
      score_text = 0, lives_text = 0, bindings = {}, timers = [],
      rand_src = src, rand_ix = 0\<rparr>)"
  have i: "Game_init w h src = (case update g2 of Inl err \<Rightarrow> Inl err
      | Inr g3 \<Rightarrow> (case shoot_continuously g3 of Inl err \<Rightarrow> Inl err
         | Inr g4 \<Rightarrow> Inr (spawn_enemies_periodically g4)))"
    unfolding Game_init_def Let_def g2_def by (simp add: case_prod_beta)
  have g2: "health (player g2) = 3" "\<not> is_game_over g2" "enemies g2 = []"
    by (simp_all add: g2_def setup_events_def setup_ui_def Player_init_def Let_def case_prod_beta)
  obtain g3 where u: "update g2 = Inr g3" and g3: "health (player g3) = 3" "\<not> is_game_over g3"
    using update_no_enemies[OF g2(2,3)] g2 by (simp add: after_def)
  obtain g4 where s: "shoot_continuously g3 = Inr g4" and g4: "player g4 = player g3" "is_game_over g4 = is_game_over g3"
    using shoot_continuously_effect[of g3] by blast
  have "Game_init w h src = Inr (spawn_enemies_periodically g4)"
    by (simp add: i u s)
  moreover have "health (player (spawn_enemies_periodically g4)) = 3 \<and> \<not> is_game_over (spawn_enemies_periodically g4)"
    using g3 g4 spawn_enemies_frame[of 3 g4] by (simp add: spawn_enemies_periodically_def after_def)
  ultimately show ?thesis by simp
qed

text \<open>The equations that evaluate a concrete run.\<close>

lemmas eval_defs = Game_init_def Player_init_def setup_ui_def setup_events_def update_def
  shoot_continuously_def spawn_enemies_periodically_def Player_shoot_def Bullet_init_def
  Bullet_move_def Bullet_check_collision_def Bullet_is_in_bounds_def Enemy_is_hit_def
  Enemy_init_def Enemy_move_towards_def Player_move_def Player_check_collision_def
  remove_enemy_def remove_bullet_def game_over_def show_close_message_def update_score_def
  update_lives_def after_def randint_def create_item_def canvas_coords_def canvas_delete_def
  itemconfig_def track_mouse_def step_def run_callback_def Let_def
  hypot_zero_left hypot_zero_right numeral_3_eq_3 atan2_def

subsection \<open>The step of an enemy\<close>

lemma hypot_scale: "hypot (a * k) (b * k) = \<bar>k\<bar> * hypot a b"
proof -
  have "(a * k)\<^sup>2 + (b * k)\<^sup>2 = k\<^sup>2 * (a\<^sup>2 + b\<^sup>2)"
    by (simp add: power_mult_distrib distrib_left mult.commute)
  then show ?thesis by (simp add: hypot_def real_sqrt_mult)
qed

lemma hypot_nonneg: "0 \<le> hypot a b" by (simp add: hypot_def)

lemma Enemy_move_towards_position:
  "e_x (enemy_objs (Enemy_move_towards e tx ty g) e) =
     e_x (enemy_objs g e) +
     (tx - e_x (enemy_objs g e)) / max (hypot (tx - e_x (enemy_objs g e)) (ty - e_y (enemy_objs g e))) 1
       * e_speed (enemy_objs g e)"
  "e_y (enemy_objs (Enemy_move_towards e tx ty g) e) =
     e_y (enemy_objs g e) +
     (ty - e_y (enemy_objs g e)) / max (hypot (tx - e_x (enemy_objs g e)) (ty - e_y (enemy_objs g e))) 1
       * e_speed (enemy_objs g e)"
  by (simp_all add: Enemy_move_towards_def Let_def)

lemma Enemy_move_towards_distance:
  fixes g e tx ty
  defines "d \<equiv> hypot (tx - e_x (enemy_objs g e)) (ty - e_y (enemy_objs g e))"
  defines "s \<equiv> e_speed (enemy_objs g e)"
  shows "hypot (tx - e_x (enemy_objs (Enemy_move_towards e tx ty g) e))
               (ty - e_y (enemy_objs (Enemy_move_towards e tx ty g) e)) =
         (if 1 \<le> d then \<bar>d - s\<bar> else \<bar>1 - s\<bar> * d)"
proof -
  define m where "m = max d 1"
  have mpos: "0 < m" by (simp add: m_def)
  have x: "tx - e_x (enemy_objs (Enemy_move_towards e tx ty g) e) = (tx - e_x (enemy_objs g e)) * (1 - s / m)"
    unfolding Enemy_move_towards_position m_def d_def s_def by (simp add: algebra_simps)
  have y: "ty - e_y (enemy_objs (Enemy_move_towards e tx ty g) e) = (ty - e_y (enemy_objs g e)) * (1 - s / m)"
    unfolding Enemy_move_towards_position m_def d_def s_def by (simp add: algebra_simps)
  have d': "hypot (tx - e_x (enemy_objs (Enemy_move_towards e tx ty g) e))
               (ty - e_y (enemy_objs (Enemy_move_towards e tx ty g) e)) = \<bar>1 - s / m\<bar> * d"
    unfolding x y hypot_scale d_def ..
  show ?thesis
  proof (cases "1 \<le> d")
    case True
    then have md: "m = d" and dpos: "0 < d" by (simp_all add: m_def)
    have "\<bar>1 - s / d\<bar> * d = \<bar>(1 - s / d) * d\<bar>" using dpos by (simp add: abs_mult)
    also have "(1 - s / d) * d = d - s" using dpos by (simp add: field_simps)
    finally show ?thesis using True d' md by simp
  next
    case False
    then have "m = 1" by (simp add: m_def)
    with False d' show ?thesis by simp
  qed
qed

subsection \<open>After game over\<close>

lemma step_over:
  "is_game_over g \<Longrightarrow>
   \<exists>g'. step ev g = Inr g' \<and> is_game_over g' \<and> enemies g' = enemies g \<and> bullets g' = bullets g \<and>
        enemy_objs g' = enemy_objs g \<and> bullet_objs g' = bullet_objs g \<and> player g' = player g \<and>
        score g' = score g"
  by (simp add: step_def run_callback_def update_def shoot_continuously_def
        spawn_enemies_periodically_def Bullet_move_def show_close_message_def after_def
        track_mouse_def split: event.splits callback.splits)

lemma run_over:
  "is_game_over g \<Longrightarrow>
   \<exists>g'. run evs g = Inr g' \<and> is_game_over g' \<and> enemies g' = enemies g \<and> bullets g' = bullets g \<and>
        enemy_objs g' = enemy_objs g \<and> bullet_objs g' = bullet_objs g \<and> player g' = player g \<and>
        score g' = score g"
proof (induction evs arbitrary: g)
  case Nil
  then show ?case by simp
next
  case (Cons ev evs)
  from step_over[OF Cons.prems, of ev] obtain g1 where s: "step ev g = Inr g1" "is_game_over g1"
    "enemies g1 = enemies g" "bullets g1 = bullets g" "enemy_objs g1 = enemy_objs g"
    "bullet_objs g1 = bullet_objs g" "player g1 = player g" "score g1 = score g"
    by blast
  from Cons.IH[OF s(2), of ] s show ?case by simp
qed

subsection \<open>A bullet that hits nothing\<close>

lemma winfo_canvas_coords [simp]:
  "winfo_width (canvas_coords i it c) = winfo_width c"
  "winfo_height (canvas_coords i it c) = winfo_height c"
  by (simp_all add: canvas_coords_def)

lemma Bullet_move_miss:
  assumes "alive (bullet_objs g b)" and "\<not> is_game_over g"
    and "0 \<le> b_x (bullet_objs g b) + b_dx (bullet_objs g b)"
    and "b_x (bullet_objs g b) + b_dx (bullet_objs g b) \<le> real_of_int (winfo_width (canvas g))"
    and "0 \<le> b_y (bullet_objs g b) + b_dy (bullet_objs g b)"
    and "b_y (bullet_objs g b) + b_dy (bullet_objs g b) \<le> real_of_int (winfo_height (canvas g))"
    and "\<forall>e\<in>set (enemies g). \<not> Enemy_is_hit e (b_x (bullet_objs g b) + b_dx (bullet_objs g b))
            (b_y (bullet_objs g b) + b_dy (bullet_objs g b)) g"
  shows "\<exists>g'. Bullet_move b g = Inr g' \<and> alive (bullet_objs g' b) \<and> \<not> is_game_over g' \<and>
     b_x (bullet_objs g' b) = b_x (bullet_objs g b) + b_dx (bullet_objs g b) \<and>
     b_y (bullet_objs g' b) = b_y (bullet_objs g b) + b_dy (bullet_objs g b) \<and>
     b_dx (bullet_objs g' b) = b_dx (bullet_objs g b) \<and>
     b_dy (bullet_objs g' b) = b_dy (bullet_objs g b) \<and>
     enemies g' = enemies g \<and> enemy_objs g' = enemy_objs g \<and>
     winfo_width (canvas g') = winfo_width (canvas g) \<and>
     winfo_height (canvas g') = winfo_height (canvas g)"
proof -
  define g2 where "g2 = g\<lparr>bullet_objs := (bullet_objs g)
       (b := (bullet_objs g b)\<lparr>b_x := b_x (bullet_objs g b) + b_dx (bullet_objs g b),
                               b_y := b_y (bullet_objs g b) + b_dy (bullet_objs g b)\<rparr>),
     canvas := canvas_coords b
       (Oval (b_x (bullet_objs g b) + b_dx (bullet_objs g b) - 5) (b_y (bullet_objs g b) + b_dy (bullet_objs g b) - 5)
             (b_x (bullet_objs g b) + b_dx (bullet_objs g b) + 5) (b_y (bullet_objs g b) + b_dy (bullet_objs g b) + 5))
       (canvas g)\<rparr>"
  have "List.find (\<lambda>e. Enemy_is_hit e (b_x (bullet_objs g2 b)) (b_y (bullet_objs g2 b)) g2) (enemies g2) = None"
    using assms(7) by (simp add: find_None_iff g2_def Enemy_is_hit_def)
  then have c: "Bullet_check_collision b g2 = Inr g2"
    by (simp add: Bullet_check_collision_eq)
  have "Bullet_move b g = Inr (after 50 (BulletMoveCb b) g2)"
    using assms(1-6) c unfolding Bullet_move_def Let_def Bullet_is_in_bounds_def g2_def
    by simp
  then show ?thesis using assms(1,2) by (simp add: after_def g2_def)
qed

lemma Bullet_init_unfold:
  "Bullet_init sx sy tx ty g =
     (case Bullet_move (next_id (canvas g))
        (g\<lparr>canvas := snd (create_item (Oval (sx - 5) (sy - 5) (sx + 5) (sy + 5)) (canvas g)),
           bullet_objs := (bullet_objs g)(next_id (canvas g) :=
             \<lparr>b_x = sx, b_y = sy, b_speed = 10, angle = atan2 (ty - sy) (tx - sx),
              b_dx = 10 * cos (atan2 (ty - sy) (tx - sx)),
              b_dy = 10 * sin (atan2 (ty - sy) (tx - sx)), alive = True\<rparr>)\<rparr>) of
        Inl err \<Rightarrow> Inl err
      | Inr g2 \<Rightarrow> Inr (next_id (canvas g), g2))"
  unfolding Bullet_init_def Let_def create_item_def by simp

subsection \<open>The ids of the bullets\<close>

lemma Game_init_state:
  "\<exists>g0. Game_init w h src = Inr g0 \<and> bullets g0 = [] \<and> enemies g0 = [4, 5, 6] \<and>
     next_id (canvas g0) = 7 \<and> health (player g0) = 3 \<and> \<not> is_game_over g0 \<and>
     mouse_x g0 = None \<and> mouse_y g0 = None \<and> score g0 = 0 \<and>
     timers g0 = [(50, UpdateCb), (500, ShootCb), (5000, SpawnCb)] \<and>
     (\<forall>e\<in>set (enemies g0). e_speed (enemy_objs g0 e) = 2)"
  by (simp add: eval_defs)

lemma Bullet_move_bullets:
  "Bullet_move b g = Inr g' \<Longrightarrow> bullets g' = bullets g \<or> bullets g' = remove1 b (bullets g)"
  by (auto simp add: Bullet_move_def Bullet_check_collision_eq remove_bullet_def small_defs
           split: option.splits if_splits)

lemma Bullet_init_bullets:
  "Bullet_init sx sy tx ty g = Inr (i, g') \<Longrightarrow>
     bullets g' = bullets g \<or> bullets g' = remove1 (next_id (canvas g)) (bullets g)"
proof -
  assume a: "Bullet_init sx sy tx ty g = Inr (i, g')"
  define g1 where "g1 = g\<lparr>canvas := snd (create_item (Oval (sx - 5) (sy - 5) (sx + 5) (sy + 5)) (canvas g)),
           bullet_objs := (bullet_objs g)(next_id (canvas g) :=
             \<lparr>b_x = sx, b_y = sy, b_speed = 10, angle = atan2 (ty - sy) (tx - sx),
              b_dx = 10 * cos (atan2 (ty - sy) (tx - sx)),
              b_dy = 10 * sin (atan2 (ty - sy) (tx - sx)), alive = True\<rparr>)\<rparr>"
  from a have "Bullet_move (next_id (canvas g)) g1 = Inr g'"
    unfolding Bullet_init_unfold g1_def[symmetric] by (simp split: sum.splits)
  from Bullet_move_bullets[OF this] show ?thesis by (simp add: g1_def)
qed

lemma shoot_continuously_ids_known:
  assumes "ids_known g" and "shoot_continuously g = Inr g'"
  shows "ids_known g'"
proof (cases "\<not> is_game_over g \<and> mouse_x g \<noteq> None \<and> mouse_y g \<noteq> None")
  case True
  obtain g1 where b: "Bullet_init (p_x (player g)) (p_y (player g)) (the (mouse_x g)) (the (mouse_y g)) g
        = Inr (next_id (canvas g), g1)"
    and n: "next_id (canvas g1) = Suc (next_id (canvas g))"
    using Bullet_init_effect[of "p_x (player g)" "p_y (player g)" "the (mouse_x g)" "the (mouse_y g)" g]
    by blast
  from True assms(2) b have g': "g' = after 500 ShootCb (g1\<lparr>bullets := bullets g1 @ [next_id (canvas g)]\<rparr>)"
    by (simp add: shoot_continuously_def Player_shoot_def)
  from Bullet_init_bullets[OF b] have "set (bullets g1) \<subseteq> set (bullets g)"
    using set_remove1_subset by fastforce
  with assms(1) n show ?thesis unfolding g' by (fastforce simp add: after_def ids_known_def)
next
  case False
  with assms(2) have "g' = after 500 ShootCb g"
    by (auto simp add: shoot_continuously_def)
  with assms(1) show ?thesis by (simp add: after_def ids_known_def)
qed

lemma run_callback_ids_known:
  assumes "ids_known g" and "run_callback cb g = Inr g'"
  shows "ids_known g'"
proof (cases cb)
  case UpdateCb
  with assms(2) have "update g = Inr g'" by (simp add: run_callback_def)
  with update_effect[of g] have "bullets g' = bullets g" "next_id (canvas g) \<le> next_id (canvas g')"
    by auto
  with assms(1) show ?thesis by (fastforce simp add: ids_known_def)
next
  case ShootCb
  with assms(2) have "shoot_continuously g = Inr g'" by (simp add: run_callback_def)
  with assms(1) show ?thesis by (rule shoot_continuously_ids_known)
next
  case SpawnCb
  with assms(2) have "g' = spawn_enemies_periodically g" by (simp add: run_callback_def)
  with assms(1) spawn_enemies_frame[of 3 g] show ?thesis
    by (fastforce simp add: spawn_enemies_periodically_def after_def ids_known_def)
next
  case (BulletMoveCb b)
  with assms(2) have m: "Bullet_move b g = Inr g'" by (simp add: run_callback_def)
  from Bullet_move_bullets[OF m] have "set (bullets g') \<subseteq> set (bullets g)"
    using set_remove1_subset by fastforce
  moreover have "next_id (canvas g') = next_id (canvas g)"
    using Bullet_move_effect[of b g] m by auto
  ultimately show ?thesis using assms(1) by (auto simp add: ids_known_def)
next
  case ShowCloseCb
  with assms show ?thesis
    by (fastforce simp add: run_callback_def show_close_message_def ids_known_def)
qed

lemma step_ids_known:
  assumes "ids_known g" and "step ev g = Inr g'"
  shows "ids_known g'"
proof (cases ev)
  case (Timer n)
  show ?thesis
  proof (cases "n < length (timers g)")
    case True
    have "ids_known (g\<lparr>timers := take n (timers g) @ drop (Suc n) (timers g)\<rparr>)"
      using assms(1) by (simp add: ids_known_def)
    moreover have "run_callback (snd (timers g ! n))
        (g\<lparr>timers := take n (timers g) @ drop (Suc n) (timers g)\<rparr>) = Inr g'"
      using assms(2) Timer True by (simp add: step_def)
    ultimately show ?thesis by (rule run_callback_ids_known)
  next
    case False
    with assms Timer show ?thesis by (simp add: step_def)
  qed
next
  case (KeyPressEv k)
  with assms show ?thesis by (auto simp add: step_def ids_known_def split: if_splits)
next
  case (KeyReleaseEv k)
  with assms show ?thesis by (auto simp add: step_def ids_known_def split: if_splits)
next
  case (MotionEv x y)
  with assms show ?thesis by (auto simp add: step_def track_mouse_def ids_known_def split: if_splits)
qed

lemma run_ids_known:
  "ids_known g \<Longrightarrow> run evs g = Inr g' \<Longrightarrow> ids_known g'"
proof (induction evs arbitrary: g)
  case Nil
  then show ?case by simp
next
  case (Cons ev evs)
  from Cons.prems(2) obtain g1 where s: "step ev g = Inr g1" and r: "run evs g1 = Inr g'"
    by (auto split: sum.splits)
  from step_ids_known[OF Cons.prems(1) s] have "ids_known g1" .
  from Cons.IH[OF this r] show ?case .
qed

lemma Game_init_ids_known: "Game_init w h src = Inr g0 \<Longrightarrow> ids_known g0"
  using Game_init_state[of w h src] by (auto simp add: ids_known_def)

text \<open>A bullet leaves the list only through \<open>remove_bullet\<close>, which clears its alive flag.\<close>

lemma Bullet_move_removes:
  "Bullet_move b g = Inr g' \<Longrightarrow>
     bullets g' = bullets g \<or> (bullets g' = remove1 b (bullets g) \<and> \<not> alive (bullet_objs g' b))"
  by (auto simp add: Bullet_move_def Bullet_check_collision_eq remove_bullet_def small_defs
           split: option.splits if_splits)

lemma in_remove1_other: "b \<in> set xs \<Longrightarrow> b \<noteq> c \<Longrightarrow> b \<in> set (remove1 c xs)"
  by simp

lemma shoot_continuously_keeps:
  assumes "shoot_continuously g = Inr g'" and "b \<in> set (bullets g)"
  shows "b \<in> set (bullets g')"
proof (cases "\<not> is_game_over g \<and> mouse_x g \<noteq> None \<and> mouse_y g \<noteq> None")
  case True
  obtain g1 where i: "Bullet_init (p_x (player g)) (p_y (player g)) (the (mouse_x g)) (the (mouse_y g)) g
        = Inr (next_id (canvas g), g1)"
    using Bullet_init_effect[of "p_x (player g)" "p_y (player g)" "the (mouse_x g)" "the (mouse_y g)" g]
    by blast
  from True assms(1) i have g': "g' = after 500 ShootCb (g1\<lparr>bullets := bullets g1 @ [next_id (canvas g)]\<rparr>)"
    by (simp add: shoot_continuously_def Player_shoot_def)
  from Bullet_init_bullets[OF i] assms(2) have "b \<in> set (bullets g1) \<or> b = next_id (canvas g)"
    by (auto simp add: in_remove1_other)
  then show ?thesis unfolding g' by (auto simp add: after_def)
next
  case False
  with assms(1) have "g' = after 500 ShootCb g"
    by (auto simp add: shoot_continuously_def)
  with assms(2) show ?thesis by (simp add: after_def)
qed

lemma run_callback_removes_dead:
  assumes "run_callback cb g = Inr g'" and "b \<in> set (bullets g)" and "b \<notin> set (bullets g')"
  shows "\<not> alive (bullet_objs g' b)"
proof (cases cb)
  case UpdateCb
  with assms(1) have "update g = Inr g'" by (simp add: run_callback_def)
  with update_effect[of g] have "bullets g' = bullets g" by auto
  with assms(2,3) show ?thesis by simp
next
  case ShootCb
  with assms(1) have "shoot_continuously g = Inr g'" by (simp add: run_callback_def)
  from shoot_continuously_keeps[OF this assms(2)] assms(3) show ?thesis by simp
next
  case SpawnCb
  with assms(1) have "g' = spawn_enemies_periodically g" by (simp add: run_callback_def)
  with spawn_enemies_frame[of 3 g] have "bullets g' = bullets g"
    by (simp add: spawn_enemies_periodically_def after_def)
  with assms(2,3) show ?thesis by simp
next
  case (BulletMoveCb c)
  with assms(1) have m: "Bullet_move c g = Inr g'" by (simp add: run_callback_def)
  from Bullet_move_removes[OF m] assms(2,3)
  have r: "bullets g' = remove1 c (bullets g)" "\<not> alive (bullet_objs g' c)" by auto
  have "b = c"
  proof (rule ccontr)
    assume "b \<noteq> c"
    with assms(2) r(1) have "b \<in> set (bullets g')" by simp
    with assms(3) show False by simp
  qed
  with r(2) show ?thesis by simp
next
  case ShowCloseCb
  with assms show ?thesis by (auto simp add: run_callback_def show_close_message_def)
qed

lemma step_removes_dead:
  assumes "step ev g = Inr g'" and "b \<in> set (bullets g)" and "b \<notin> set (bullets g')"
  shows "\<not> alive (bullet_objs g' b)"
proof (cases ev)
  case (Timer n)
  show ?thesis
  proof (cases "n < length (timers g)")
    case True
    have "run_callback (snd (timers g ! n))
        (g\<lparr>timers := take n (timers g) @ drop (Suc n) (timers g)\<rparr>) = Inr g'"
      using assms(1) Timer True by (simp add: step_def)
    moreover have "b \<in> set (bullets (g\<lparr>timers := take n (timers g) @ drop (Suc n) (timers g)\<rparr>))"
      using assms(2) by simp
    ultimately show ?thesis using assms(3) by (rule run_callback_removes_dead)
  next
    case False
    with assms Timer show ?thesis by (simp add: step_def)
  qed
next
  case (KeyPressEv k)
  with assms show ?thesis by (auto simp add: step_def split: if_splits)
next
  case (KeyReleaseEv k)
  with assms show ?thesis by (auto simp add: step_def split: if_splits)
next
  case (MotionEv x y)
  with assms show ?thesis by (auto simp add: step_def track_mouse_def split: if_splits)
qed

lemma dead_bullet_never_changes:
  assumes "\<not> alive (bullet_objs g b)" and "b < next_id (canvas g)"
  shows "\<exists>g'. run evs g = Inr g' \<and> bullet_objs g' b = bullet_objs g b"
  using run_effect[of evs g] assms by blast

section \<open>The claims\<close>

subsection \<open>Concrete runs\<close>

text \<open>
  Run A, with \<open>src_a\<close>: three enemies appear at \<open>(100, 124)\<close>; the update, shoot and
  spawn timers fire once each (three more enemies appear at \<open>(100, 122)\<close>, where the first
  three have walked to); then the update timer fires twice. In the second of these ticks all
  six enemies reach \<open>(100, 118)\<close>, within 20 units of the player at \<open>(100, 100)\<close>.
\<close>

lemma run_a:
  "\<exists>g0 g. Game_init 800 600 src_a = Inr g0 \<and>
     run [Timer 0, Timer 0, Timer 0, Timer 0, Timer 2] g0 = Inr g \<and>
     health (player g) = - 3 \<and> is_game_over g \<and> enemies g = [] \<and>
     timers g = [(500, ShootCb), (5000, SpawnCb), (5000, ShowCloseCb), (5000, ShowCloseCb),
                 (5000, ShowCloseCb), (5000, ShowCloseCb), (50, UpdateCb)]"
  by (simp add: eval_defs src_a_def)

text \<open>
  Run B, with \<open>src_b\<close>: enemies 4, 5 and 6 appear at \<open>(123, 100)\<close>, \<open>(127, 100)\<close> and
  \<open>(700, 100)\<close>; the pointer moves to \<open>(200, 100)\<close> and the update timer fires once, which
  brings the enemies to \<open>(121, 100)\<close>, \<open>(125, 100)\<close> and \<open>(698, 100)\<close>.
\<close>

lemma run_b:
  "\<exists>g0 g. Game_init 800 600 src_b = Inr g0 \<and>
     run [MotionEv 200 100, Timer 0] g0 = Inr g \<and>
     \<not> is_game_over g \<and> health (player g) = 3 \<and> score g = 0 \<and>
     enemies g = [4, 5, 6] \<and> bullets g = [] \<and> next_id (canvas g) = 7 \<and>
     e_x (enemy_objs g 4) = 121 \<and> e_y (enemy_objs g 4) = 100 \<and>
     e_x (enemy_objs g 5) = 125 \<and> e_y (enemy_objs g 5) = 100"
  by (simp add: eval_defs src_b_def)

text \<open>The first state of the game with \<open>src_d\<close>: the enemies 4, 5 and 6 are at \<open>(700, 100)\<close>.\<close>

lemma init_d:
  "\<exists>g0. Game_init 800 600 src_d = Inr g0 \<and> \<not> is_game_over g0 \<and>
     enemies g0 = [4, 5, 6] \<and> bullets g0 = [] \<and> next_id (canvas g0) = 7 \<and>
     winfo_width (canvas g0) = 800 \<and> winfo_height (canvas g0) = 600 \<and>
     (\<forall>e\<in>set (enemies g0). e_x (enemy_objs g0 e) = 700 \<and> e_y (enemy_objs g0 e) = 100)"
  by (simp add: eval_defs src_d_def)

subsection \<open>C1: removal of a non-member\<close>

text \<open>
  The bullet half of the claim holds: \<open>remove_bullet\<close> tests membership first, so removing
  a bullet that is not in the collection changes nothing, and a second removal of the same
  bullet is a no-op.
\<close>

lemma remove_bullet_twice:
  "distinct (bullets g) \<Longrightarrow> remove_bullet b (remove_bullet b g) = remove_bullet b g"
  by (simp add: remove_bullet_def Let_def)

text \<open>
  Claim C1 says that removal is idempotent for every enemy and every bullet: removing an
  entity that is not (or no longer) a member is a no-op, not an error. \<open>remove_enemy\<close>
  has no membership test: on the first state of a game it removes enemy 4, and the second
  removal of enemy 4 raises \<^verbatim>\<open>ValueError\<close>.
\<close>

theorem remove_enemy_twice_raises:
  "\<exists>g0 g1. Game_init 800 600 src_a = Inr g0 \<and> enemies g0 = [4, 5, 6] \<and>
     remove_enemy 4 g0 = Inr g1 \<and> enemies g1 = [5, 6] \<and>
     remove_enemy 4 g1 = Inl ValueError"
  by (simp add: eval_defs src_a_def)

subsection \<open>C2: player health over a run\<close>

text \<open>
  Claim C2, as amended: over every run from the first state of the game, whatever the
  canvas size, the random numbers and the events, no callback raises, the game is over
  exactly when the health is at most 0 (so the health is positive until the game is over,
  and the flag is set in the tick in which the health first reaches 0 or less), no event
  increases the health, and once the game is over the flag stays set and the health no
  longer changes. The health is not bounded below by 0: every enemy within the radius in
  the last update tick takes one unit.
\<close>

theorem health_over_every_run:
  "\<exists>g0 g. Game_init w h src = Inr g0 \<and> health (player g0) = 3 \<and> \<not> is_game_over g0 \<and>
      run evs g0 = Inr g \<and>
      (is_game_over g \<longleftrightarrow> health (player g) \<le> 0) \<and>
      (\<exists>g'. step ev g = Inr g' \<and> health (player g') \<le> health (player g) \<and>
            (is_game_over g \<longrightarrow> is_game_over g' \<and> health (player g') = health (player g)))"
proof -
  obtain g0 where i: "Game_init w h src = Inr g0" "health (player g0) = 3" "\<not> is_game_over g0"
    using Game_init_effect by blast
  obtain g where r: "run evs g0 = Inr g"
    "(is_game_over g0 \<longleftrightarrow> health (player g0) \<le> 0) \<longrightarrow> (is_game_over g \<longleftrightarrow> health (player g) \<le> 0)"
    using run_effect[of evs g0] by blast
  from r(2) i have j: "is_game_over g \<longleftrightarrow> health (player g) \<le> 0" by simp
  obtain g' where "step ev g = Inr g'" "health (player g') \<le> health (player g)"
     "is_game_over g \<longrightarrow> is_game_over g' \<and> health (player g') = health (player g)"
    using step_effect[of ev g] by blast
  with i r(1) j show ?thesis by blast
qed

theorem health_over_every_run_witness:
  "\<exists>g0 g g'. Game_init 800 600 src_a = Inr g0 \<and>
     run [Timer 0, Timer 0, Timer 0, Timer 0, Timer 2] g0 = Inr g \<and>
     is_game_over g \<and> health (player g) \<le> 0 \<and>
     step (Timer 0) g = Inr g' \<and> is_game_over g' \<and> health (player g') = health (player g)"
proof -
  obtain g0 g where a: "Game_init 800 600 src_a = Inr g0"
      "run [Timer 0, Timer 0, Timer 0, Timer 0, Timer 2] g0 = Inr g" "is_game_over g"
    using run_a by blast
  obtain h0 h where b: "Game_init 800 600 src_a = Inr h0"
      "run [Timer 0, Timer 0, Timer 0, Timer 0, Timer 2] h0 = Inr h"
      "is_game_over h \<longleftrightarrow> health (player h) \<le> 0"
      "\<exists>g'. step (Timer 0) h = Inr g' \<and> health (player g') \<le> health (player h) \<and>
            (is_game_over h \<longrightarrow> is_game_over g' \<and> health (player g') = health (player h))"
    using health_over_every_run[of 800 600 src_a "[Timer 0, Timer 0, Timer 0, Timer 0, Timer 2]" "Timer 0"]
    by blast
  from a b have "h = g" by simp
  with a b show ?thesis by blast
qed

text \<open>
  The claim as stated fails: at the end of run A the health is \<open>- 3\<close>. Six enemies are
  within the radius in one update tick, and the loop of \<open>update\<close> goes on after the
  third has brought the health to 0.
\<close>

theorem health_negative_after_one_tick:
  "\<exists>g0 g. Game_init 800 600 src_a = Inr g0 \<and>
     run [Timer 0, Timer 0, Timer 0, Timer 0, Timer 2] g0 = Inr g \<and>
     health (player g) = - 3 \<and> health (player g) < 0"
  using run_a by auto

subsection \<open>C3: the step of an enemy towards its target\<close>

text \<open>
  Claim C3, as amended: when the Euclidean distance between the enemy and the target is at
  least 1 and at least the enemy's speed, one call of \<open>Enemy_move_towards\<close> reduces it by
  exactly the speed; and for a speed between 0 and 2 (the constructor sets 2) no call
  increases the distance, wherever the enemy stands. Distances are those of the plane,
  in exact arithmetic.
\<close>

theorem move_towards_distance:
  "(1 \<le> dist (Complex (e_x (enemy_objs g e)) (e_y (enemy_objs g e))) (Complex tx ty) \<and>
    e_speed (enemy_objs g e) \<le> dist (Complex (e_x (enemy_objs g e)) (e_y (enemy_objs g e))) (Complex tx ty)
    \<longrightarrow>
      dist (Complex (e_x (enemy_objs (Enemy_move_towards e tx ty g) e))
                    (e_y (enemy_objs (Enemy_move_towards e tx ty g) e))) (Complex tx ty) =
      dist (Complex (e_x (enemy_objs g e)) (e_y (enemy_objs g e))) (Complex tx ty)
        - e_speed (enemy_objs g e)) \<and>
   (0 \<le> e_speed (enemy_objs g e) \<and> e_speed (enemy_objs g e) \<le> 2 \<longrightarrow>
      dist (Complex (e_x (enemy_objs (Enemy_move_towards e tx ty g) e))
                    (e_y (enemy_objs (Enemy_move_towards e tx ty g) e))) (Complex tx ty) \<le>
      dist (Complex (e_x (enemy_objs g e)) (e_y (enemy_objs g e))) (Complex tx ty))"
proof -
  define d where "d = hypot (tx - e_x (enemy_objs g e)) (ty - e_y (enemy_objs g e))"
  define s where "s = e_speed (enemy_objs g e)"
  define d' where "d' = hypot (tx - e_x (enemy_objs (Enemy_move_towards e tx ty g) e))
               (ty - e_y (enemy_objs (Enemy_move_towards e tx ty g) e))"
  have e: "d' = (if 1 \<le> d then \<bar>d - s\<bar> else \<bar>1 - s\<bar> * d)"
    unfolding d'_def d_def s_def by (rule Enemy_move_towards_distance)
  have n: "0 \<le> d" by (simp add: d_def hypot_nonneg)
  have a: "1 \<le> d \<and> s \<le> d \<longrightarrow> d' = d - s" using e by simp
  have b: "0 \<le> s \<and> s \<le> 2 \<longrightarrow> d' \<le> d"
  proof (intro impI, cases "1 \<le> d")
    case True
    assume "0 \<le> s \<and> s \<le> 2"
    with True e show "d' \<le> d" by (simp add: abs_le_iff)
  next
    case False
    assume s: "0 \<le> s \<and> s \<le> 2"
    then have "\<bar>1 - s\<bar> \<le> 1" by (simp add: abs_le_iff)
    then have "\<bar>1 - s\<bar> * d \<le> 1 * d" using n by (rule mult_right_mono)
    with False e show "d' \<le> d" by simp
  qed
  have c1: "dist (Complex (e_x (enemy_objs g e)) (e_y (enemy_objs g e))) (Complex tx ty) = d"
    by (simp add: d_def hypot_dist dist_commute)
  have c2: "dist (Complex (e_x (enemy_objs (Enemy_move_towards e tx ty g) e))
                    (e_y (enemy_objs (Enemy_move_towards e tx ty g) e))) (Complex tx ty) = d'"
    by (simp add: d'_def hypot_dist dist_commute)
  show ?thesis unfolding c1 c2 s_def[symmetric] using a b by blast
qed

theorem move_towards_distance_witness:
  "\<exists>g0. Game_init 800 600 src_a = Inr g0 \<and>
     e_x (enemy_objs g0 4) = 100 \<and> e_y (enemy_objs g0 4) = 124 \<and> e_speed (enemy_objs g0 4) = 2 \<and>
     dist (Complex (e_x (enemy_objs g0 4)) (e_y (enemy_objs g0 4))) (Complex 100 100) = 24 \<and>
     dist (Complex (e_x (enemy_objs (Enemy_move_towards 4 100 100 g0) 4))
                   (e_y (enemy_objs (Enemy_move_towards 4 100 100 g0) 4))) (Complex 100 100) = 22"
proof -
  obtain g0 where a: "Game_init 800 600 src_a = Inr g0"
      "e_x (enemy_objs g0 4) = 100" "e_y (enemy_objs g0 4) = 124" "e_speed (enemy_objs g0 4) = 2"
    by (simp add: eval_defs src_a_def)
  have d: "dist (Complex (e_x (enemy_objs g0 4)) (e_y (enemy_objs g0 4))) (Complex 100 100) = 24"
    using a by (simp add: hypot_dist[symmetric] hypot_zero_left)
  from move_towards_distance[of g0 4 100 100] a d show ?thesis by simp
qed

text \<open>
  The claim as stated fails when the enemy is nearer to the target than its speed: an enemy
  at \<open>(99, 100)\<close>, one unit from the target \<open>(100, 100)\<close>, steps over it to \<open>(101, 100)\<close>,
  one unit away again. The distance is reduced by 0, not by the speed 2.
\<close>

theorem move_towards_steps_over_target:
  "\<exists>g0. Game_init 800 600 src_c = Inr g0 \<and>
     e_x (enemy_objs g0 4) = 99 \<and> e_y (enemy_objs g0 4) = 100 \<and> e_speed (enemy_objs g0 4) = 2 \<and>
     dist (Complex (e_x (enemy_objs g0 4)) (e_y (enemy_objs g0 4))) (Complex 100 100) = 1 \<and>
     e_x (enemy_objs (Enemy_move_towards 4 100 100 g0) 4) = 101 \<and>
     e_y (enemy_objs (Enemy_move_towards 4 100 100 g0) 4) = 100 \<and>
     dist (Complex (e_x (enemy_objs (Enemy_move_towards 4 100 100 g0) 4))
                   (e_y (enemy_objs (Enemy_move_towards 4 100 100 g0) 4))) (Complex 100 100) = 1 \<and>
     dist (Complex (e_x (enemy_objs (Enemy_move_towards 4 100 100 g0) 4))
                   (e_y (enemy_objs (Enemy_move_towards 4 100 100 g0) 4))) (Complex 100 100) \<noteq>
       dist (Complex (e_x (enemy_objs g0 4)) (e_y (enemy_objs g0 4))) (Complex 100 100)
         - e_speed (enemy_objs g0 4)"
  by (simp add: eval_defs src_c_def hypot_dist[symmetric])

subsection \<open>C4: rescheduling after game over\<close>

text \<open>
  Claim C4 says that every periodic task stops rescheduling itself once the game is over.
  The spawn task and the update task do (so does the move of a bullet);
  \<open>shoot_continuously\<close> registers itself again whatever the flag says. At the end of run A
  the game is over: the update and the spawn callbacks leave the pending timers as they
  are, the shoot callback adds its own timer again.
\<close>

theorem shoot_reschedules_after_game_over:
  "\<exists>g0 g. Game_init 800 600 src_a = Inr g0 \<and>
     run [Timer 0, Timer 0, Timer 0, Timer 0, Timer 2] g0 = Inr g \<and> is_game_over g \<and>
     update g = Inr g \<and>
     spawn_enemies_periodically g = g \<and>
     shoot_continuously g = Inr (g\<lparr>timers := timers g @ [(500, ShootCb)]\<rparr>)"
proof -
  obtain g0 g where a: "Game_init 800 600 src_a = Inr g0"
      "run [Timer 0, Timer 0, Timer 0, Timer 0, Timer 2] g0 = Inr g" "is_game_over g"
    using run_a by blast
  from a(3) have "update g = Inr g" "spawn_enemies_periodically g = g"
      "shoot_continuously g = Inr (g\<lparr>timers := timers g @ [(500, ShootCb)]\<rparr>)"
    by (simp_all add: update_def spawn_enemies_periodically_def shoot_continuously_def after_def)
  with a show ?thesis by blast
qed

subsection \<open>C5: the collision check\<close>

text \<open>
  Claim C5: both collision checks report a hit exactly when the Euclidean distance of the
  two positions is below 20 (so a distance of 20 or more is never a hit), and the check is
  symmetric: the check of the player against an enemy is the check of that enemy against a
  bullet at the player's position, and the check of one position against another is the
  check of the other against the one.
\<close>

theorem collision_threshold_exact_symmetric:
  "(Enemy_is_hit e bx by g \<longleftrightarrow> dist (Complex (e_x (enemy_objs g e)) (e_y (enemy_objs g e))) (Complex bx by) < 20) \<and>
   (fst (Player_check_collision e g) \<longleftrightarrow>
      dist (Complex (p_x (player g)) (p_y (player g))) (Complex (e_x (enemy_objs g e)) (e_y (enemy_objs g e))) < 20) \<and>
   (fst (Player_check_collision e g) \<longleftrightarrow> Enemy_is_hit e (p_x (player g)) (p_y (player g)) g) \<and>
   (Enemy_is_hit e (e_x (enemy_objs g e')) (e_y (enemy_objs g e')) g \<longleftrightarrow>
      Enemy_is_hit e' (e_x (enemy_objs g e)) (e_y (enemy_objs g e)) g)"
  by (simp add: Enemy_is_hit_def Player_check_collision_def Let_def hypot_dist dist_commute)

text \<open>
  At the threshold: an enemy at \<open>(700, 100)\<close> is hit by a bullet at \<open>(681, 100)\<close>, 19 units
  away, and not by one at \<open>(680, 100)\<close>, 20 units away.
\<close>

theorem collision_threshold_witness:
  "\<exists>g0. Game_init 800 600 src_d = Inr g0 \<and>
     dist (Complex (e_x (enemy_objs g0 4)) (e_y (enemy_objs g0 4))) (Complex 681 100) = 19 \<and>
     Enemy_is_hit 4 681 100 g0 \<and>
     dist (Complex (e_x (enemy_objs g0 4)) (e_y (enemy_objs g0 4))) (Complex 680 100) = 20 \<and>
     \<not> Enemy_is_hit 4 680 100 g0"
proof -
  obtain g0 where a: "Game_init 800 600 src_d = Inr g0"
      "e_x (enemy_objs g0 4) = 700" "e_y (enemy_objs g0 4) = 100"
    using init_d by auto
  have "dist (Complex (e_x (enemy_objs g0 4)) (e_y (enemy_objs g0 4))) (Complex 681 100) = 19"
       "dist (Complex (e_x (enemy_objs g0 4)) (e_y (enemy_objs g0 4))) (Complex 680 100) = 20"
    using a by (simp_all add: hypot_dist[symmetric] hypot_zero_right)
  with collision_threshold_exact_symmetric[of 4 681 100 g0 4]
       collision_threshold_exact_symmetric[of 4 680 100 g0 4] a
  show ?thesis by auto
qed

subsection \<open>C6: the game is frozen after game over\<close>

text \<open>
  Claim C6: once the game is over, a spawn tick changes nothing, a shoot tick creates no
  bullet (it only registers its timer again), an update tick changes nothing, the move of a
  bullet changes nothing, and after any further events the game is still over with the
  same enemies, bullets, positions and player.
\<close>

theorem game_over_freezes:
  assumes "is_game_over g"
  shows "spawn_enemies_periodically g = g \<and>
         shoot_continuously g = Inr (g\<lparr>timers := timers g @ [(500, ShootCb)]\<rparr>) \<and>
         update g = Inr g \<and>
         Bullet_move b g = Inr g \<and>
         (\<exists>g'. run evs g = Inr g' \<and> is_game_over g' \<and>
                enemies g' = enemies g \<and> bullets g' = bullets g \<and>
                enemy_objs g' = enemy_objs g \<and> bullet_objs g' = bullet_objs g \<and>
                player g' = player g)"
proof -
  have "spawn_enemies_periodically g = g"
    using assms by (simp add: spawn_enemies_periodically_def)
  moreover have "shoot_continuously g = Inr (g\<lparr>timers := timers g @ [(500, ShootCb)]\<rparr>)"
    using assms by (simp add: shoot_continuously_def after_def)
  moreover have "update g = Inr g"
    using assms by (simp add: update_def)
  moreover have "Bullet_move b g = Inr g"
    using assms by (simp add: Bullet_move_def)
  moreover have "\<exists>g'. run evs g = Inr g' \<and> is_game_over g' \<and>
                enemies g' = enemies g \<and> bullets g' = bullets g \<and>
                enemy_objs g' = enemy_objs g \<and> bullet_objs g' = bullet_objs g \<and>
                player g' = player g"
    using run_over[OF assms, of evs] by blast
  ultimately show ?thesis by blast
qed

theorem game_over_freezes_witness:
  "\<exists>g0 g g'. Game_init 800 600 src_a = Inr g0 \<and>
     run [Timer 0, Timer 0, Timer 0, Timer 0, Timer 2] g0 = Inr g \<and> is_game_over g \<and>
     health (player g) \<le> 0 \<and>
     spawn_enemies_periodically g = g \<and>
     shoot_continuously g = Inr (g\<lparr>timers := timers g @ [(500, ShootCb)]\<rparr>) \<and>
     update g = Inr g \<and>
     run [Timer 1, Timer 0, Timer 5] g = Inr g' \<and> is_game_over g' \<and>
     enemies g' = enemies g \<and> bullets g' = bullets g \<and>
     enemy_objs g' = enemy_objs g \<and> bullet_objs g' = bullet_objs g \<and> player g' = player g"
proof -
  obtain g0 g where a: "Game_init 800 600 src_a = Inr g0"
      "run [Timer 0, Timer 0, Timer 0, Timer 0, Timer 2] g0 = Inr g" "is_game_over g"
      "health (player g) = - 3"
    using run_a by blast
  from game_over_freezes[OF a(3), of 7 "[Timer 1, Timer 0, Timer 5]"] a show ?thesis by auto
qed

subsection \<open>C7: one bullet, several enemies\<close>

text \<open>
  What holds: the collision check of a bullet resolves the first enemy of the list that is
  within the radius, and no other (\<open>Bullet_check_collision_eq\<close>). When the bullet is in the
  game's list of bullets, it is removed with that enemy and the score grows by 1.
\<close>

lemma Bullet_check_collision_first_hit:
  assumes "b \<in> set (bullets g)"
    and "List.find (\<lambda>e. Enemy_is_hit e (b_x (bullet_objs g b)) (b_y (bullet_objs g b)) g) (enemies g) = Some e"
  shows "\<exists>g'. Bullet_check_collision b g = Inr g' \<and> enemies g' = remove1 e (enemies g) \<and>
     bullets g' = remove1 b (bullets g) \<and> \<not> alive (bullet_objs g' b) \<and> score g' = score g + 1"
  using assms by (simp add: Bullet_check_collision_eq remove_bullet_def update_score_def Let_def)

text \<open>
  Claim C7 says that the bullet and the first enemy within its radius are both removed and
  that no second enemy is removed by the same bullet. The constructor of a bullet runs the
  bullet's first move before \<open>shoot_continuously\<close> has put the bullet into the list, and
  \<open>remove_bullet\<close> does nothing for a bullet that is not in the list. After run B the
  shoot tick creates bullet 7, which moves to \<open>(110, 100)\<close>, within the radius of enemies 4
  and 5: enemy 4 is removed and the score is 1, but bullet 7 stays alive and is then added
  to the list. After the next update tick its next move removes enemy 5 as well.
\<close>

theorem new_bullet_survives_its_hit:
  "\<exists>g0 g g1 g2 g3. Game_init 800 600 src_b = Inr g0 \<and>
     run [MotionEv 200 100, Timer 0] g0 = Inr g \<and>
     enemies g = [4, 5, 6] \<and> score g = 0 \<and> bullets g = [] \<and>
     Enemy_is_hit 4 110 100 g \<and> Enemy_is_hit 5 110 100 g \<and>
     shoot_continuously g = Inr g1 \<and>
     b_x (bullet_objs g1 7) = 110 \<and> b_y (bullet_objs g1 7) = 100 \<and>
     enemies g1 = [5, 6] \<and> score g1 = 1 \<and> bullets g1 = [7] \<and> alive (bullet_objs g1 7) \<and>
     update g1 = Inr g2 \<and> enemies g2 = [5, 6] \<and>
     alive (bullet_objs g2 7) \<and> \<not> is_game_over g2 \<and>
     Bullet_move 7 g2 = Inr g3 \<and>
     enemies g3 = [6] \<and> score g3 = 2 \<and> bullets g3 = [] \<and> \<not> alive (bullet_objs g3 7)"
  by (simp add: eval_defs src_b_def)

text \<open>In that run the bullet's second move is a real move: the bullet is alive and the game is not over.\<close>

theorem new_bullet_survives_its_hit_witness:
  "\<exists>g0 g g1 g2 g3. Game_init 800 600 src_b = Inr g0 \<and>
     run [MotionEv 200 100, Timer 0] g0 = Inr g \<and>
     shoot_continuously g = Inr g1 \<and> score g1 = 1 \<and> alive (bullet_objs g1 7) \<and>
     update g1 = Inr g2 \<and> alive (bullet_objs g2 7) \<and> \<not> is_game_over g2 \<and>
     Bullet_move 7 g2 = Inr g3 \<and> score g3 = 2"
  using new_bullet_survives_its_hit by blast

subsection \<open>C8: a bullet fired from (100, 100) towards (200, 100)\<close>

text \<open>
  The flight of the bullet in a running game whose canvas reaches to \<open>(160, 100)\<close> and in
  which no enemy is within the radius of the points of the flight: the constructor and
  five further moves.
\<close>

lemma bullet_flight:
  assumes "\<not> is_game_over g"
    and "160 \<le> winfo_width (canvas g)" and "100 \<le> winfo_height (canvas g)"
    and "\<forall>e\<in>set (enemies g). \<forall>x\<in>set [110, 120, 130, 140, 150, 160]. \<not> Enemy_is_hit e x 100 g"
  shows "\<exists>g1 g2 g3 g4 g5 g6.
      Bullet_init 100 100 200 100 g = Inr (next_id (canvas g), g1) \<and>
      Bullet_move (next_id (canvas g)) g1 = Inr g2 \<and>
      Bullet_move (next_id (canvas g)) g2 = Inr g3 \<and>
      Bullet_move (next_id (canvas g)) g3 = Inr g4 \<and>
      Bullet_move (next_id (canvas g)) g4 = Inr g5 \<and>
      Bullet_move (next_id (canvas g)) g5 = Inr g6 \<and>
      b_x (bullet_objs g1 (next_id (canvas g))) = 110 \<and>
      b_y (bullet_objs g1 (next_id (canvas g))) = 100 \<and>
      b_x (bullet_objs g2 (next_id (canvas g))) = 120 \<and>
      b_y (bullet_objs g2 (next_id (canvas g))) = 100 \<and>
      b_x (bullet_objs g3 (next_id (canvas g))) = 130 \<and>
      b_y (bullet_objs g3 (next_id (canvas g))) = 100 \<and>
      b_x (bullet_objs g4 (next_id (canvas g))) = 140 \<and>
      b_y (bullet_objs g4 (next_id (canvas g))) = 100 \<and>
      b_x (bullet_objs g5 (next_id (canvas g))) = 150 \<and>
      b_y (bullet_objs g5 (next_id (canvas g))) = 100 \<and>
      b_x (bullet_objs g6 (next_id (canvas g))) = 160 \<and>
      b_y (bullet_objs g6 (next_id (canvas g))) = 100"
proof -
  define i where "i = next_id (canvas g)"
  define g0 where "g0 = g\<lparr>canvas := snd (create_item (Oval (100 - 5) (100 - 5) (100 + 5) (100 + 5)) (canvas g)),
           bullet_objs := (bullet_objs g)(i :=
             \<lparr>b_x = 100, b_y = 100, b_speed = 10, angle = atan2 (100 - 100) (200 - 100),
              b_dx = 10 * cos (atan2 (100 - 100) (200 - 100)),
              b_dy = 10 * sin (atan2 (100 - 100) (200 - 100)), alive = True\<rparr>)\<rparr>"
  have w: "160 \<le> real_of_int (winfo_width (canvas g))" "100 \<le> real_of_int (winfo_height (canvas g))"
    using assms(2,3) by simp_all
  have miss: "\<And>(g'::Game) x. enemies g' = enemies g \<Longrightarrow> enemy_objs g' = enemy_objs g \<Longrightarrow>
      x \<in> set [110, 120, 130, 140, 150, 160] \<Longrightarrow> \<forall>e\<in>set (enemies g'). \<not> Enemy_is_hit e x 100 g'"
    using assms(4) by (auto simp add: Enemy_is_hit_def)
  have s0: "alive (bullet_objs g0 i)" "\<not> is_game_over g0" "b_x (bullet_objs g0 i) = 100"
    "b_y (bullet_objs g0 i) = 100" "b_dx (bullet_objs g0 i) = 10" "b_dy (bullet_objs g0 i) = 0"
    "enemies g0 = enemies g" "enemy_objs g0 = enemy_objs g"
    "winfo_width (canvas g0) = winfo_width (canvas g)" "winfo_height (canvas g0) = winfo_height (canvas g)"
    using assms(1) by (simp_all add: g0_def atan2_def create_item_def)
  have tick: "\<And>(g'::Game) x. alive (bullet_objs g' i) \<Longrightarrow> \<not> is_game_over g' \<Longrightarrow>
      b_x (bullet_objs g' i) = x - 10 \<Longrightarrow> b_y (bullet_objs g' i) = 100 \<Longrightarrow>
      b_dx (bullet_objs g' i) = 10 \<Longrightarrow> b_dy (bullet_objs g' i) = 0 \<Longrightarrow>
      enemies g' = enemies g \<Longrightarrow> enemy_objs g' = enemy_objs g \<Longrightarrow>
      winfo_width (canvas g') = winfo_width (canvas g) \<Longrightarrow>
      winfo_height (canvas g') = winfo_height (canvas g) \<Longrightarrow>
      x \<in> set [110, 120, 130, 140, 150, 160] \<Longrightarrow>
      \<exists>g''. Bullet_move i g' = Inr g'' \<and> alive (bullet_objs g'' i) \<and> \<not> is_game_over g'' \<and>
        b_x (bullet_objs g'' i) = x \<and> b_y (bullet_objs g'' i) = 100 \<and>
        b_dx (bullet_objs g'' i) = 10 \<and> b_dy (bullet_objs g'' i) = 0 \<and>
        enemies g'' = enemies g \<and> enemy_objs g'' = enemy_objs g \<and>
        winfo_width (canvas g'') = winfo_width (canvas g) \<and>
        winfo_height (canvas g'') = winfo_height (canvas g)"
  proof -
    fix g' :: Game and x :: real
    assume a: "alive (bullet_objs g' i)" "\<not> is_game_over g'"
      "b_x (bullet_objs g' i) = x - 10" "b_y (bullet_objs g' i) = 100"
      "b_dx (bullet_objs g' i) = 10" "b_dy (bullet_objs g' i) = 0"
      "enemies g' = enemies g" "enemy_objs g' = enemy_objs g"
      "winfo_width (canvas g') = winfo_width (canvas g)"
      "winfo_height (canvas g') = winfo_height (canvas g)"
      "x \<in> set [110, 120, 130, 140, 150, 160]"
    have b: "0 \<le> x" "x \<le> 160" using a(11) by auto
    have "\<forall>e\<in>set (enemies g'). \<not> Enemy_is_hit e x 100 g'" using miss[OF a(7,8,11)] .
    then show "\<exists>g''. Bullet_move i g' = Inr g'' \<and> alive (bullet_objs g'' i) \<and> \<not> is_game_over g'' \<and>
        b_x (bullet_objs g'' i) = x \<and> b_y (bullet_objs g'' i) = 100 \<and>
        b_dx (bullet_objs g'' i) = 10 \<and> b_dy (bullet_objs g'' i) = 0 \<and>
        enemies g'' = enemies g \<and> enemy_objs g'' = enemy_objs g \<and>
        winfo_width (canvas g'') = winfo_width (canvas g) \<and>
        winfo_height (canvas g'') = winfo_height (canvas g)"
      using Bullet_move_miss[of g' i] a b w by simp
  qed
  obtain g1 where g1: "Bullet_move i g0 = Inr g1" "alive (bullet_objs g1 i)" "\<not> is_game_over g1"
        "b_x (bullet_objs g1 i) = 110" "b_y (bullet_objs g1 i) = 100"
        "b_dx (bullet_objs g1 i) = 10" "b_dy (bullet_objs g1 i) = 0"
        "enemies g1 = enemies g" "enemy_objs g1 = enemy_objs g"
        "winfo_width (canvas g1) = winfo_width (canvas g)"
        "winfo_height (canvas g1) = winfo_height (canvas g)"
    using tick[of g0 110] s0 by auto
  obtain g2 where g2: "Bullet_move i g1 = Inr g2" "alive (bullet_objs g2 i)" "\<not> is_game_over g2"
        "b_x (bullet_objs g2 i) = 120" "b_y (bullet_objs g2 i) = 100"
        "b_dx (bullet_objs g2 i) = 10" "b_dy (bullet_objs g2 i) = 0"
        "enemies g2 = enemies g" "enemy_objs g2 = enemy_objs g"
        "winfo_width (canvas g2) = winfo_width (canvas g)"
        "winfo_height (canvas g2) = winfo_height (canvas g)"
    using tick[of g1 120] g1 by auto
  obtain g3 where g3: "Bullet_move i g2 = Inr g3" "alive (bullet_objs g3 i)" "\<not> is_game_over g3"
        "b_x (bullet_objs g3 i) = 130" "b_y (bullet_objs g3 i) = 100"
        "b_dx (bullet_objs g3 i) = 10" "b_dy (bullet_objs g3 i) = 0"
        "enemies g3 = enemies g" "enemy_objs g3 = enemy_objs g"
        "winfo_width (canvas g3) = winfo_width (canvas g)"
        "winfo_height (canvas g3) = winfo_height (canvas g)"
    using tick[of g2 130] g2 by auto
  obtain g4 where g4: "Bullet_move i g3 = Inr g4" "alive (bullet_objs g4 i)" "\<not> is_game_over g4"
        "b_x (bullet_objs g4 i) = 140" "b_y (bullet_objs g4 i) = 100"
        "b_dx (bullet_objs g4 i) = 10" "b_dy (bullet_objs g4 i) = 0"
        "enemies g4 = enemies g" "enemy_objs g4 = enemy_objs g"
        "winfo_width (canvas g4) = winfo_width (canvas g)"
        "winfo_height (canvas g4) = winfo_height (canvas g)"
    using tick[of g3 140] g3 by auto
  obtain g5 where g5: "Bullet_move i g4 = Inr g5" "alive (bullet_objs g5 i)" "\<not> is_game_over g5"
        "b_x (bullet_objs g5 i) = 150" "b_y (bullet_objs g5 i) = 100"
        "b_dx (bullet_objs g5 i) = 10" "b_dy (bullet_objs g5 i) = 0"
        "enemies g5 = enemies g" "enemy_objs g5 = enemy_objs g"
        "winfo_width (canvas g5) = winfo_width (canvas g)"
        "winfo_height (canvas g5) = winfo_height (canvas g)"
    using tick[of g4 150] g4 by auto
  obtain g6 where g6: "Bullet_move i g5 = Inr g6"
        "b_x (bullet_objs g6 i) = 160" "b_y (bullet_objs g6 i) = 100"
    using tick[of g5 160] g5 by auto
  have "Bullet_init 100 100 200 100 g = Inr (i, g1)"
    using g1(1) unfolding Bullet_init_unfold i_def[symmetric] g0_def[symmetric] by simp
  with g1(1,4,5) g2(1,4,5) g3(1,4,5) g4(1,4,5) g5(1,4,5) g6 show ?thesis
    unfolding i_def[symmetric] by blast
qed

text \<open>
  Claim C8, as amended: a bullet created at \<open>(100, 100)\<close> with target \<open>(200, 100)\<close> has
  the speed 10 and the velocity \<open>(10, 0)\<close>. The constructor runs the first move itself, so
  in a running game the new bullet is at \<open>(110, 100)\<close>. When moreover the canvas reaches
  to \<open>(160, 100)\<close> and no enemy is within the radius of the points of the flight, every
  scheduled tick (a call of \<open>Bullet_move\<close>) adds the velocity: after four ticks the bullet
  is at \<open>(150, 100)\<close>, after five at \<open>(160, 100)\<close>.
\<close>

theorem bullet_scenario:
  "\<exists>g1. Bullet_init 100 100 200 100 g = Inr (next_id (canvas g), g1) \<and>
      b_speed (bullet_objs g1 (next_id (canvas g))) = 10 \<and>
      b_dx (bullet_objs g1 (next_id (canvas g))) = 10 \<and>
      b_dy (bullet_objs g1 (next_id (canvas g))) = 0 \<and>
      (\<not> is_game_over g \<longrightarrow>
         b_x (bullet_objs g1 (next_id (canvas g))) = 110 \<and>
         b_y (bullet_objs g1 (next_id (canvas g))) = 100) \<and>
      (\<not> is_game_over g \<and> 160 \<le> winfo_width (canvas g) \<and> 100 \<le> winfo_height (canvas g) \<and>
       (\<forall>e\<in>set (enemies g). \<forall>x\<in>set [110, 120, 130, 140, 150, 160]. \<not> Enemy_is_hit e x 100 g)
       \<longrightarrow>
         (\<exists>g2 g3 g4 g5 g6.
            Bullet_move (next_id (canvas g)) g1 = Inr g2 \<and>
            Bullet_move (next_id (canvas g)) g2 = Inr g3 \<and>
            Bullet_move (next_id (canvas g)) g3 = Inr g4 \<and>
            Bullet_move (next_id (canvas g)) g4 = Inr g5 \<and>
            Bullet_move (next_id (canvas g)) g5 = Inr g6 \<and>
            b_x (bullet_objs g2 (next_id (canvas g))) = 120 \<and>
            b_y (bullet_objs g2 (next_id (canvas g))) = 100 \<and>
            b_x (bullet_objs g3 (next_id (canvas g))) = 130 \<and>
            b_y (bullet_objs g3 (next_id (canvas g))) = 100 \<and>
            b_x (bullet_objs g4 (next_id (canvas g))) = 140 \<and>
            b_y (bullet_objs g4 (next_id (canvas g))) = 100 \<and>
            b_x (bullet_objs g5 (next_id (canvas g))) = 150 \<and>
            b_y (bullet_objs g5 (next_id (canvas g))) = 100 \<and>
            b_x (bullet_objs g6 (next_id (canvas g))) = 160 \<and>
            b_y (bullet_objs g6 (next_id (canvas g))) = 100))"
proof -
  obtain g1 where i: "Bullet_init 100 100 200 100 g = Inr (next_id (canvas g), g1)"
    and v: "b_speed (bullet_objs g1 (next_id (canvas g))) = 10"
      "b_dx (bullet_objs g1 (next_id (canvas g))) = 10"
      "b_dy (bullet_objs g1 (next_id (canvas g))) = 0"
    and p: "\<not> is_game_over g \<longrightarrow>
         b_x (bullet_objs g1 (next_id (canvas g))) = 110 \<and>
         b_y (bullet_objs g1 (next_id (canvas g))) = 100"
    using Bullet_init_effect[of 100 100 200 100 g] by (auto simp add: atan2_def)
  have f: "\<not> is_game_over g \<and> 160 \<le> winfo_width (canvas g) \<and> 100 \<le> winfo_height (canvas g) \<and>
       (\<forall>e\<in>set (enemies g). \<forall>x\<in>set [110, 120, 130, 140, 150, 160]. \<not> Enemy_is_hit e x 100 g)
       \<longrightarrow>
         (\<exists>g2 g3 g4 g5 g6.
            Bullet_move (next_id (canvas g)) g1 = Inr g2 \<and>
            Bullet_move (next_id (canvas g)) g2 = Inr g3 \<and>
            Bullet_move (next_id (canvas g)) g3 = Inr g4 \<and>
            Bullet_move (next_id (canvas g)) g4 = Inr g5 \<and>
            Bullet_move (next_id (canvas g)) g5 = Inr g6 \<and>
            b_x (bullet_objs g2 (next_id (canvas g))) = 120 \<and>
            b_y (bullet_objs g2 (next_id (canvas g))) = 100 \<and>
            b_x (bullet_objs g3 (next_id (canvas g))) = 130 \<and>
            b_y (bullet_objs g3 (next_id (canvas g))) = 100 \<and>
            b_x (bullet_objs g4 (next_id (canvas g))) = 140 \<and>
            b_y (bullet_objs g4 (next_id (canvas g))) = 100 \<and>
            b_x (bullet_objs g5 (next_id (canvas g))) = 150 \<and>
            b_y (bullet_objs g5 (next_id (canvas g))) = 100 \<and>
            b_x (bullet_objs g6 (next_id (canvas g))) = 160 \<and>
            b_y (bullet_objs g6 (next_id (canvas g))) = 100)"
  proof
    assume a: "\<not> is_game_over g \<and> 160 \<le> winfo_width (canvas g) \<and> 100 \<le> winfo_height (canvas g) \<and>
       (\<forall>e\<in>set (enemies g). \<forall>x\<in>set [110, 120, 130, 140, 150, 160]. \<not> Enemy_is_hit e x 100 g)"
    then have a1: "\<not> is_game_over g" and a2: "160 \<le> winfo_width (canvas g)"
      and a3: "100 \<le> winfo_height (canvas g)"
      and a4: "\<forall>e\<in>set (enemies g). \<forall>x\<in>set [110, 120, 130, 140, 150, 160]. \<not> Enemy_is_hit e x 100 g"
      by blast+
    from bullet_flight[OF a1 a2 a3 a4] obtain h1 g2 g3 g4 g5 g6 where
      h: "Bullet_init 100 100 200 100 g = Inr (next_id (canvas g), h1)"
        "Bullet_move (next_id (canvas g)) h1 = Inr g2"
        "Bullet_move (next_id (canvas g)) g2 = Inr g3"
        "Bullet_move (next_id (canvas g)) g3 = Inr g4"
        "Bullet_move (next_id (canvas g)) g4 = Inr g5"
        "Bullet_move (next_id (canvas g)) g5 = Inr g6"
        "b_x (bullet_objs g2 (next_id (canvas g))) = 120"
        "b_y (bullet_objs g2 (next_id (canvas g))) = 100"
        "b_x (bullet_objs g3 (next_id (canvas g))) = 130"
        "b_y (bullet_objs g3 (next_id (canvas g))) = 100"
        "b_x (bullet_objs g4 (next_id (canvas g))) = 140"
        "b_y (bullet_objs g4 (next_id (canvas g))) = 100"
        "b_x (bullet_objs g5 (next_id (canvas g))) = 150"
        "b_y (bullet_objs g5 (next_id (canvas g))) = 100"
        "b_x (bullet_objs g6 (next_id (canvas g))) = 160"
        "b_y (bullet_objs g6 (next_id (canvas g))) = 100"
      by blast
    from h(1) i have "h1 = g1" by simp
    with h show "\<exists>g2 g3 g4 g5 g6.
            Bullet_move (next_id (canvas g)) g1 = Inr g2 \<and>
            Bullet_move (next_id (canvas g)) g2 = Inr g3 \<and>
            Bullet_move (next_id (canvas g)) g3 = Inr g4 \<and>
            Bullet_move (next_id (canvas g)) g4 = Inr g5 \<and>
            Bullet_move (next_id (canvas g)) g5 = Inr g6 \<and>
            b_x (bullet_objs g2 (next_id (canvas g))) = 120 \<and>
            b_y (bullet_objs g2 (next_id (canvas g))) = 100 \<and>
            b_x (bullet_objs g3 (next_id (canvas g))) = 130 \<and>
            b_y (bullet_objs g3 (next_id (canvas g))) = 100 \<and>
            b_x (bullet_objs g4 (next_id (canvas g))) = 140 \<and>
            b_y (bullet_objs g4 (next_id (canvas g))) = 100 \<and>
            b_x (bullet_objs g5 (next_id (canvas g))) = 150 \<and>
            b_y (bullet_objs g5 (next_id (canvas g))) = 100 \<and>
            b_x (bullet_objs g6 (next_id (canvas g))) = 160 \<and>
            b_y (bullet_objs g6 (next_id (canvas g))) = 100"
      by blast
  qed
  from i v p f show ?thesis by blast
qed

theorem bullet_scenario_witness:
  "\<exists>g0 g1 g2 g3 g4 g5 g6. Game_init 800 600 src_d = Inr g0 \<and> \<not> is_game_over g0 \<and>
      Bullet_init 100 100 200 100 g0 = Inr (7, g1) \<and>
      b_dx (bullet_objs g1 7) = 10 \<and> b_dy (bullet_objs g1 7) = 0 \<and>
      b_x (bullet_objs g1 7) = 110 \<and> b_y (bullet_objs g1 7) = 100 \<and>
      Bullet_move 7 g1 = Inr g2 \<and> Bullet_move 7 g2 = Inr g3 \<and>
      Bullet_move 7 g3 = Inr g4 \<and> Bullet_move 7 g4 = Inr g5 \<and> Bullet_move 7 g5 = Inr g6 \<and>
      b_x (bullet_objs g5 7) = 150 \<and> b_y (bullet_objs g5 7) = 100 \<and>
      b_x (bullet_objs g6 7) = 160 \<and> b_y (bullet_objs g6 7) = 100"
proof -
  obtain g0 where a: "Game_init 800 600 src_d = Inr g0" "\<not> is_game_over g0"
      "next_id (canvas g0) = 7"
      "winfo_width (canvas g0) = 800" "winfo_height (canvas g0) = 600"
      "\<forall>e\<in>set (enemies g0). e_x (enemy_objs g0 e) = 700 \<and> e_y (enemy_objs g0 e) = 100"
    using init_d by blast
  have n: "\<forall>e\<in>set (enemies g0). \<forall>x\<in>set [110, 120, 130, 140, 150, 160]. \<not> Enemy_is_hit e x 100 g0"
    using a(6) by (simp add: Enemy_is_hit_def hypot_zero_right)
  from bullet_scenario[of g0] a n show ?thesis by auto
qed

text \<open>
  The claim as stated fails: a tick is a scheduled invocation of the callback, and the move
  that the constructor runs comes before the first of them. With \<open>src_d\<close> and the pointer at
  \<open>(200, 100)\<close> the shoot task creates bullet 7 at the player's position \<open>(100, 100)\<close>; the
  new bullet is at \<open>(110, 100)\<close>, and after its five scheduled moves it is at
  \<open>(160, 100)\<close>, not at \<open>(150, 100)\<close>.
\<close>

theorem bullet_after_five_scheduled_ticks:
  "\<exists>g0 g g1 g2 g3 g4 g5 g6. Game_init 800 600 src_d = Inr g0 \<and>
      run [MotionEv 200 100] g0 = Inr g \<and>
      p_x (player g) = 100 \<and> p_y (player g) = 100 \<and>
      shoot_continuously g = Inr g1 \<and> bullets g1 = [7] \<and>
      b_dx (bullet_objs g1 7) = 10 \<and> b_dy (bullet_objs g1 7) = 0 \<and>
      b_x (bullet_objs g1 7) = 110 \<and> b_y (bullet_objs g1 7) = 100 \<and>
      (50, BulletMoveCb 7) \<in> set (timers g1) \<and>
      Bullet_move 7 g1 = Inr g2 \<and> Bullet_move 7 g2 = Inr g3 \<and>
      Bullet_move 7 g3 = Inr g4 \<and> Bullet_move 7 g4 = Inr g5 \<and> Bullet_move 7 g5 = Inr g6 \<and>
      b_x (bullet_objs g6 7) = 160 \<and> b_y (bullet_objs g6 7) = 100 \<and>
      b_x (bullet_objs g6 7) \<noteq> 150"
  by (simp add: eval_defs src_d_def)

subsection \<open>C9: a bullet whose target is its own position\<close>

text \<open>
  Claim C9: a bullet created with its target at its own start position gets the angle
  \<open>atan2 0 0 = 0\<close> and the velocity \<open>(10, 0)\<close>; nothing guards the zero distance, and in a
  running game the move that the constructor runs takes the bullet 10 units in the
  direction of \<open>+x\<close>.
\<close>

theorem bullet_at_own_position:
  "\<exists>g'. Bullet_init x y x y g = Inr (next_id (canvas g), g') \<and>
     angle (bullet_objs g' (next_id (canvas g))) = 0 \<and>
     b_speed (bullet_objs g' (next_id (canvas g))) = 10 \<and>
     b_dx (bullet_objs g' (next_id (canvas g))) = 10 \<and>
     b_dy (bullet_objs g' (next_id (canvas g))) = 0 \<and>
     (\<not> is_game_over g \<longrightarrow>
        b_x (bullet_objs g' (next_id (canvas g))) = x + 10 \<and>
        b_y (bullet_objs g' (next_id (canvas g))) = y)"
  using Bullet_init_effect[of x y x y g] by (auto simp add: atan2_0_0)

theorem bullet_at_own_position_witness:
  "\<exists>g0 g'. Game_init 800 600 src_d = Inr g0 \<and> \<not> is_game_over g0 \<and>
     Bullet_init 100 100 100 100 g0 = Inr (7, g') \<and>
     angle (bullet_objs g' 7) = 0 \<and> b_dx (bullet_objs g' 7) = 10 \<and> b_dy (bullet_objs g' 7) = 0 \<and>
     b_x (bullet_objs g' 7) = 110 \<and> b_y (bullet_objs g' 7) = 100"
proof -
  obtain g0 where a: "Game_init 800 600 src_d = Inr g0" "\<not> is_game_over g0"
      "next_id (canvas g0) = 7"
    using init_d by blast
  from bullet_at_own_position[of 100 100 g0] a show ?thesis by auto
qed

subsection \<open>C10: a removed bullet never moves\<close>

text \<open>
  Claim C10: in every state of every run, when a bullet of the game's list is removed, its
  alive flag is false, and whatever events follow, no callback raises and the bullet's record
  (its position and its flag) stays as it is. The same holds when an event of the run takes
  the bullet off the list. The move of any bullet whose flag is false, or whose game is
  over, changes nothing, and once the game is over no event changes any bullet.
\<close>

theorem removed_bullet_never_moves:
  assumes "Game_init w h src = Inr g0" and "run evs0 g0 = Inr g" and "b \<in> set (bullets g)"
  shows "\<not> alive (bullet_objs (remove_bullet b g) b) \<and>
         (\<exists>g'. run evs (remove_bullet b g) = Inr g' \<and>
                bullet_objs g' b = bullet_objs (remove_bullet b g) b) \<and>
         (\<forall>ev g1. step ev g = Inr g1 \<and> b \<notin> set (bullets g1) \<longrightarrow>
            \<not> alive (bullet_objs g1 b) \<and>
            (\<exists>g'. run evs g1 = Inr g' \<and> bullet_objs g' b = bullet_objs g1 b)) \<and>
         (\<forall>g2. \<not> alive (bullet_objs g2 b) \<or> is_game_over g2 \<longrightarrow> Bullet_move b g2 = Inr g2) \<and>
         (\<forall>g2. is_game_over g2 \<longrightarrow> (\<exists>g'. run evs g2 = Inr g' \<and> bullet_objs g' = bullet_objs g2))"
proof -
  have ik: "ids_known g"
    using Game_init_ids_known[OF assms(1)] assms(2) by (rule run_ids_known)
  with assms(3) have k: "b < next_id (canvas g)" by (simp add: ids_known_def)
  have d: "\<not> alive (bullet_objs (remove_bullet b g) b)"
    using assms(3) by (simp add: remove_bullet_def Let_def)
  have n: "b < next_id (canvas (remove_bullet b g))"
    using assms(3) k by (simp add: remove_bullet_def Let_def)
  have r: "\<exists>g'. run evs (remove_bullet b g) = Inr g' \<and>
                bullet_objs g' b = bullet_objs (remove_bullet b g) b"
    using d n by (rule dead_bullet_never_changes)
  have s: "\<forall>ev g1. step ev g = Inr g1 \<and> b \<notin> set (bullets g1) \<longrightarrow>
            \<not> alive (bullet_objs g1 b) \<and>
            (\<exists>g'. run evs g1 = Inr g' \<and> bullet_objs g' b = bullet_objs g1 b)"
  proof (intro allI impI)
    fix ev g1
    assume a: "step ev g = Inr g1 \<and> b \<notin> set (bullets g1)"
    then have dead: "\<not> alive (bullet_objs g1 b)"
      using step_removes_dead[of ev g g1 b] assms(3) by simp
    have "next_id (canvas g) \<le> next_id (canvas g1)"
      using step_effect[of ev g] a by auto
    with k have "b < next_id (canvas g1)" by simp
    with dead show "\<not> alive (bullet_objs g1 b) \<and>
            (\<exists>g'. run evs g1 = Inr g' \<and> bullet_objs g' b = bullet_objs g1 b)"
      using dead_bullet_never_changes[of g1 b evs] by simp
  qed
  have o: "\<forall>g2. is_game_over g2 \<longrightarrow> (\<exists>g'. run evs g2 = Inr g' \<and> bullet_objs g' = bullet_objs g2)"
    using run_over[of _ evs] by blast
  from d r s o show ?thesis by (simp add: Bullet_move_dead)
qed

theorem removed_bullet_never_moves_witness:
  "\<exists>g0 g g' g1 g2. Game_init 800 600 src_b = Inr g0 \<and>
     run [MotionEv 200 100, Timer 0, Timer 0, Timer 1] g0 = Inr g \<and>
     7 \<in> set (bullets g) \<and> alive (bullet_objs g 7) \<and>
     \<not> alive (bullet_objs (remove_bullet 7 g) 7) \<and>
     run [Timer 1, Timer 1, Timer 0] (remove_bullet 7 g) = Inr g' \<and>
     bullet_objs g' 7 = bullet_objs (remove_bullet 7 g) 7 \<and>
     step (Timer 1) g = Inr g1 \<and> 7 \<notin> set (bullets g1) \<and> \<not> alive (bullet_objs g1 7) \<and>
     run [Timer 1, Timer 1, Timer 0] g1 = Inr g2 \<and> bullet_objs g2 7 = bullet_objs g1 7 \<and>
     Bullet_move 7 g1 = Inr g1"
proof -
  obtain g0 g g1 where a: "Game_init 800 600 src_b = Inr g0"
      "run [MotionEv 200 100, Timer 0, Timer 0, Timer 1] g0 = Inr g"
      "7 \<in> set (bullets g)" "alive (bullet_objs g 7)"
      "step (Timer 1) g = Inr g1" "7 \<notin> set (bullets g1)"
    by (simp add: eval_defs src_b_def)
  note t = removed_bullet_never_moves[OF a(1,2,3), of "[Timer 1, Timer 1, Timer 0]"]
  from t have d: "\<not> alive (bullet_objs (remove_bullet 7 g) 7)" by blast
  from t obtain g' where r: "run [Timer 1, Timer 1, Timer 0] (remove_bullet 7 g) = Inr g'"
      "bullet_objs g' 7 = bullet_objs (remove_bullet 7 g) 7" by blast
  from t a(5,6) have d1: "\<not> alive (bullet_objs g1 7)" by blast
  from t a(5,6) obtain g2 where r1: "run [Timer 1, Timer 1, Timer 0] g1 = Inr g2"
      "bullet_objs g2 7 = bullet_objs g1 7" by blast
  from t d1 have m: "Bullet_move 7 g1 = Inr g1" by blast
  from a d r d1 r1 m show ?thesis by blast
qed

end
